theory Spec2Isabelle
  imports Main "HOL-Library.Word" "HOL-Library.Sublist"
begin

section \<open>Values of the host language\<close>

text \<open>
  A JavaScript string is a sequence of 16-bit code units; regular expressions without the
  \<^verbatim>\<open>u\<close> flag match code unit by code unit. String literals of the source are
  all ASCII and are written through \<open>ascii\<close>.
\<close>

type_synonym jsstring = "16 word list"

definition ascii :: "string \<Rightarrow> jsstring" where
  "ascii s = map (\<lambda>c. of_nat (of_char c)) s"

text \<open>
  The replies of the two services are parsed JSON (\<^verbatim>\<open>any\<close> in the source). The
  components read the fields \<^verbatim>\<open>text\<close>, \<^verbatim>\<open>response\<close>,
  \<^verbatim>\<open>session_id\<close> and \<^verbatim>\<open>detail\<close> only; a field is a string, \<^verbatim>\<open>null\<close>, or
  absent (\<^verbatim>\<open>undefined\<close>). Values of other JSON types are outside the model.
\<close>

datatype jsval = Undefined | Null | Str jsstring

text \<open>ToBoolean, as used by \<^verbatim>\<open>if (x)\<close>, \<^verbatim>\<open>x && y\<close> and \<^verbatim>\<open>x || y\<close>.\<close>

fun truthy :: "jsval \<Rightarrow> bool" where
  "truthy Undefined = False"
| "truthy Null = False"
| "truthy (Str s) = (s \<noteq> [])"

text \<open>ToString, as applied by \<^verbatim>\<open>RegExp.prototype.test\<close> to its argument.\<close>

fun ToString :: "jsval \<Rightarrow> jsstring" where
  "ToString Undefined = ascii ''undefined''"
| "ToString Null = ascii ''null''"
| "ToString (Str s) = s"

text \<open>\<^verbatim>\<open>a || b\<close> where \<open>b\<close> is a string literal and the result is shown as text.\<close>

fun or_else :: "jsval \<Rightarrow> jsstring \<Rightarrow> jsstring" where
  "or_else (Str s) d = (if s \<noteq> [] then s else d)"
| "or_else _ d = d"

section \<open>VoiceMode: the language detector\<close>

text \<open>
  \<^verbatim>\<open>/[\ua-\ub\uc-\ud]/.test(text)\<close>: some code unit of the text lies in one of the
  ranges of the character class.
\<close>

definition regex_test :: "(nat \<times> nat) list \<Rightarrow> jsstring \<Rightarrow> bool" where
  "regex_test cls txt = list_ex (\<lambda>c. list_ex (\<lambda>(lo, hi). lo \<le> unat c \<and> unat c \<le> hi) cls) txt"

definition detectLanguage :: "jsstring \<Rightarrow> jsstring" where
  "detectLanguage txt =
    (if regex_test [(0x0900, 0x097F)] txt then ascii ''hi-IN''
     else if regex_test [(0x0900, 0x097F)] txt \<and> regex_test [(0x0931, 0x0931)] txt then ascii ''mr-IN''
     else if regex_test [(0x0C80, 0x0CFF)] txt then ascii ''kn-IN''
     else if regex_test [(0x0B80, 0x0BFF)] txt then ascii ''ta-IN''
     else if regex_test [(0x0B00, 0x0B7F)] txt then ascii ''or-IN''
     else if regex_test [(0x0980, 0x09FF)] txt then ascii ''bn-IN''
     else if regex_test [(0x0A00, 0x0A7F)] txt then ascii ''pa-IN''
     else if regex_test [(0x0A80, 0x0AFF)] txt then ascii ''gu-IN''
     else if regex_test [(0x0D00, 0x0D7F)] txt then ascii ''ml-IN''
     else if regex_test [(0x0C00, 0x0C7F)] txt then ascii ''te-IN''
     else if regex_test [(0x0D80, 0x0DFF)] txt then ascii ''si-LK''
     else if regex_test [(0x3040, 0x309F), (0x30A0, 0x30FF)] txt then ascii ''ja-JP''
     else if regex_test [(0x4E00, 0x9FFF)] txt then ascii ''zh-CN''
     else if regex_test [(0xAC00, 0xD7AF)] txt then ascii ''ko-KR''
     else ascii ''en-IN'')"

text \<open>The tags the detector can return, and the script ranges its tests list.\<close>

definition language_tags :: "jsstring list" where
  "language_tags = map ascii [''hi-IN'', ''mr-IN'', ''kn-IN'', ''ta-IN'', ''or-IN'', ''bn-IN'',
     ''pa-IN'', ''gu-IN'', ''ml-IN'', ''te-IN'', ''si-LK'', ''ja-JP'', ''zh-CN'', ''ko-KR'', ''en-IN'']"

definition script_ranges :: "(nat \<times> nat) list" where
  "script_ranges = [(0x0900, 0x097F), (0x0C80, 0x0CFF), (0x0B80, 0x0BFF), (0x0B00, 0x0B7F),
     (0x0980, 0x09FF), (0x0A00, 0x0A7F), (0x0A80, 0x0AFF), (0x0D00, 0x0D7F), (0x0C00, 0x0C7F),
     (0x0D80, 0x0DFF), (0x3040, 0x309F), (0x30A0, 0x30FF), (0x4E00, 0x9FFF), (0xAC00, 0xD7AF)]"

section \<open>The platform: requests, replies, notifications, speech\<close>

text \<open>
  An event handler is modelled as a function on the component's state that runs to the
  end of its asynchronous continuation; what the environment answers at each
  \<^verbatim>\<open>await\<close> is an argument. Everything a handler does to the outside is appended,
  in order, to the list of effects of the state. (The handlers of the voice screen are
  also given piece by piece, cut at their awaits, in the section on the page.)
\<close>

type_synonym blobpart = "8 word list"

record blob =
  parts :: "blobpart list"
  blob_type :: jsstring

text \<open>
  An entry of a \<^verbatim>\<open>FormData\<close> is the value handed to \<^verbatim>\<open>append\<close>: a text value,
  or a file with its name.
\<close>

datatype form_value = Text jsval | File blob jsstring

type_synonym formdata = "(string \<times> form_value) list"

record toast =
  title :: jsstring
  description :: jsstring
  variant :: jsstring

record utterance =
  utterance_text :: jsval
  lang :: jsstring

datatype effect =
    SynthCancel
  | GetUserMedia
  | RecorderStart
  | RecorderStop
  | TracksStop
  | Fetch jsstring formdata
  | ToastShown toast
  | Speak utterance

text \<open>The fields of a parsed reply that the components read (\<^verbatim>\<open>data.text\<close> and so on).\<close>

record json_reply =
  data_text :: jsval
  data_response :: jsval
  data_session_id :: jsval
  data_detail :: jsval

text \<open>
  \<^verbatim>\<open>await res.json()\<close> either rejects (the body is not JSON, or reading a field of the
  parsed value throws) with an error message, or yields the fields. \<^verbatim>\<open>await fetch(...)\<close>
  either rejects with an error message (network failure) or resolves with a status and a
  body.
\<close>

datatype body = BodyError jsstring | BodyJson json_reply

datatype fetch_result = NetworkError jsstring | Response nat body

text \<open>\<^verbatim>\<open>res.ok\<close>: the status is in the range 200 to 299.\<close>

definition ok :: "nat \<Rightarrow> bool" where
  "ok status = (200 \<le> status \<and> status \<le> 299)"

text \<open>\<^verbatim>\<open>getUserMedia\<close> resolves with a stream or rejects (permission denied, no device).\<close>

datatype mic_result = Granted | Denied

text \<open>
  The state of a \<^verbatim>\<open>MediaRecorder\<close>: after \<^verbatim>\<open>stop()\<close> the recorder is inactive and
  its \<^verbatim>\<open>dataavailable\<close> and \<^verbatim>\<open>stop\<close> events are queued (\<open>StopQueued\<close>) until the
  platform dispatches them.
\<close>

datatype recorder_state = Recording | StopQueued | Inactive

fun recorder_stop :: "recorder_state \<Rightarrow> recorder_state" where
  "recorder_stop Recording = StopQueued"
| "recorder_stop s = s"

text \<open>Every notification of both components has the same title and variant.\<close>

definition error_toast :: "jsstring \<Rightarrow> toast" where
  "error_toast d = \<lparr>title = ascii ''Error'', description = d, variant = ascii ''destructive''\<rparr>"

text \<open>
  The queue of \<^verbatim>\<open>speechSynthesis\<close>: the utterance at the head is being spoken, the others
  wait. \<^verbatim>\<open>cancel()\<close> empties it, \<^verbatim>\<open>speak(u)\<close> appends to it.
\<close>

definition speaking :: "utterance list \<Rightarrow> bool" where
  "speaking q = (q \<noteq> [])"

definition pending :: "utterance list \<Rightarrow> bool" where
  "pending q = (tl q \<noteq> [])"

section \<open>VoiceMode: state and handlers\<close>

text \<open>
  The handlers of a recorder are closures of the render in which the recording was
  started: \<^verbatim>\<open>handleChat\<close>, reached from \<^verbatim>\<open>onstop\<close>, reads the \<^verbatim>\<open>sessionId\<close>
  of that render. The recorder keeps it.
\<close>

record voice_recorder =
  rstate :: recorder_state
  captured_sessionId :: jsval

record voice_mode =
  isListening :: bool
  isProcessing :: bool
  transcript :: jsval
  response :: jsval
  sessionId :: jsval
  mediaRecorderRef :: "voice_recorder option"
  audioChunksRef :: "blobpart list"
  speechSynthesis :: "utterance list"
  effects :: "effect list"

definition voice_init :: voice_mode where
  "voice_init = \<lparr>isListening = False, isProcessing = False, transcript = Str [], response = Str [],
     sessionId = Null, mediaRecorderRef = None, audioChunksRef = [], speechSynthesis = [],
     effects = []\<rparr>"

definition emit :: "effect \<Rightarrow> voice_mode \<Rightarrow> voice_mode" where
  "emit e st = st\<lparr>effects := effects st @ [e]\<rparr>"

definition cancel :: "voice_mode \<Rightarrow> voice_mode" where
  "cancel st = emit SynthCancel (st\<lparr>speechSynthesis := []\<rparr>)"

definition voice_transcribe_url :: jsstring where
  "voice_transcribe_url = ascii ''http://localhost:5000/api/transcribe''"

definition voice_chat_url :: jsstring where
  "voice_chat_url = ascii ''http://localhost:5000/api/chat''"

definition handleChat :: "jsval \<Rightarrow> jsval \<Rightarrow> fetch_result \<Rightarrow> voice_mode \<Rightarrow> voice_mode" where
  "handleChat sid message reply st =
    (let formData = (if truthy sid then [(''session_id'', Text sid)] else []) @ [(''message'', Text message)];
         st1 = emit (Fetch voice_chat_url formData) st;
         failed = (\<lambda>msg. (emit (ToastShown (error_toast (or_else (Str msg) (ascii ''Chat error'')))) st1)
                      \<lparr>isProcessing := False\<rparr>)
     in case reply of
          NetworkError msg \<Rightarrow> failed msg
        | Response status b \<Rightarrow>
            if \<not> ok status then failed (ascii ''Chat request failed'')
            else (case b of
                    BodyError msg \<Rightarrow> failed msg
                  | BodyJson d \<Rightarrow>
                      (let st2 = st1\<lparr>response := data_response d, sessionId := data_session_id d\<rparr>;
                           u = \<lparr>utterance_text = data_response d,
                                lang = detectLanguage (ToString (data_response d))\<rparr>;
                           st3 = emit (Speak u) (st2\<lparr>speechSynthesis := speechSynthesis st2 @ [u]\<rparr>)
                       in st3\<lparr>isProcessing := False\<rparr>)))"

definition handleTranscription ::
    "jsval \<Rightarrow> blob \<Rightarrow> fetch_result \<Rightarrow> fetch_result \<Rightarrow> voice_mode \<Rightarrow> voice_mode" where
  "handleTranscription sid audioBlob reply chat_reply st =
    (let formData = [(''file'', File audioBlob (ascii ''recording.webm''))];
         st1 = emit (Fetch voice_transcribe_url formData) st;
         failed = (\<lambda>msg. (emit (ToastShown (error_toast (or_else (Str msg) (ascii ''Transcription error'')))) st1)
                      \<lparr>isProcessing := False\<rparr>)
     in case reply of
          NetworkError msg \<Rightarrow> failed msg
        | Response status b \<Rightarrow>
            if \<not> ok status then failed (ascii ''Transcription failed'')
            else (case b of
                    BodyError msg \<Rightarrow> failed msg
                  | BodyJson d \<Rightarrow>
                      (let txt = data_text d;
                           st2 = st1\<lparr>transcript := txt\<rparr>
                       in handleChat sid txt chat_reply st2)))"

definition startListening :: "mic_result \<Rightarrow> voice_mode \<Rightarrow> voice_mode" where
  "startListening mic st =
    (let st1 = (if speaking (speechSynthesis st) \<or> pending (speechSynthesis st) then cancel st else st);
         st2 = emit GetUserMedia st1
     in case mic of
          Denied \<Rightarrow> emit (ToastShown (error_toast (ascii ''Could not access microphone''))) st2
        | Granted \<Rightarrow>
            (let mediaRecorder = \<lparr>rstate = Recording, captured_sessionId = sessionId st\<rparr>;
                 st3 = st2\<lparr>mediaRecorderRef := Some mediaRecorder, audioChunksRef := []\<rparr>;
                 st4 = emit RecorderStart st3
             in st4\<lparr>isListening := True, transcript := Str [], response := Str []\<rparr>))"

definition ondataavailable :: "blobpart \<Rightarrow> voice_mode \<Rightarrow> voice_mode" where
  "ondataavailable chunk st = st\<lparr>audioChunksRef := audioChunksRef st @ [chunk]\<rparr>"

definition onstop :: "voice_recorder \<Rightarrow> fetch_result \<Rightarrow> fetch_result \<Rightarrow> voice_mode \<Rightarrow> voice_mode" where
  "onstop r reply chat_reply st =
    (let st1 = st\<lparr>isProcessing := True\<rparr>;
         audioBlob = \<lparr>parts = audioChunksRef st1, blob_type = ascii ''audio/webm''\<rparr>;
         st2 = handleTranscription (captured_sessionId r) audioBlob reply chat_reply st1
     in emit TracksStop st2)"

definition stopListening :: "voice_mode \<Rightarrow> voice_mode" where
  "stopListening st =
    (let st1 = (case mediaRecorderRef st of
                  Some r \<Rightarrow>
                    if isListening st
                    then (emit RecorderStop (st\<lparr>mediaRecorderRef := Some (r\<lparr>rstate := recorder_stop (rstate r)\<rparr>)\<rparr>))
                           \<lparr>isListening := False\<rparr>
                    else st
                | None \<Rightarrow> st)
     in if speaking (speechSynthesis st1) \<or> pending (speechSynthesis st1) then cancel st1 else st1)"

definition toggleListening :: "mic_result \<Rightarrow> voice_mode \<Rightarrow> voice_mode" where
  "toggleListening mic st = (if isListening st then stopListening st else startListening mic st)"

subsection \<open>The events of the voice screen\<close>

text \<open>
  What the environment supplies to one click: the answer of the microphone (used when the
  click starts a recording), and the recorded data and the replies of the two services
  (used when the click stops one).
\<close>

record voice_env =
  mic :: mic_result
  recorded :: "blobpart list"
  transcribe_reply :: fetch_result
  chat_reply :: fetch_result

text \<open>
  The platform dispatches the queued events of a stopped recorder: \<^verbatim>\<open>dataavailable\<close> for
  the recorded data, then \<^verbatim>\<open>stop\<close>.
\<close>

definition voice_dispatch :: "voice_env \<Rightarrow> voice_mode \<Rightarrow> voice_mode" where
  "voice_dispatch env st =
    (case mediaRecorderRef st of
       None \<Rightarrow> st
     | Some r \<Rightarrow>
         if rstate r = StopQueued
         then (let st1 = st\<lparr>mediaRecorderRef := Some (r\<lparr>rstate := Inactive\<rparr>)\<rparr>;
                   st2 = foldl (\<lambda>s c. ondataavailable c s) st1 (recorded env)
               in onstop r (transcribe_reply env) (chat_reply env) st2)
         else st)"

text \<open>
  A click on the button (disabled while \<^verbatim>\<open>isProcessing\<close>), or the end of the utterance
  being spoken. Each event is handled to the end before the next one arrives: these are the
  runs of one mounted voice screen in which nothing happens while a handler waits at an
  \<^verbatim>\<open>await\<close>. The runs in which other events come in between are those of the page,
  further down, where the handlers are cut at their awaits.
\<close>

datatype voice_event = Click voice_env | UtteranceEnd

fun voice_step :: "voice_mode \<Rightarrow> voice_event \<Rightarrow> voice_mode" where
  "voice_step st (Click env) =
     (if isProcessing st then st else voice_dispatch env (toggleListening (mic env) st))"
| "voice_step st UtteranceEnd = st\<lparr>speechSynthesis := tl (speechSynthesis st)\<rparr>"

declare voice_step.simps [simp del]

definition voice_run :: "voice_event list \<Rightarrow> voice_mode" where
  "voice_run evs = foldl voice_step voice_init evs"

text \<open>The requests among a list of effects, in order.\<close>

fun requests :: "effect list \<Rightarrow> (jsstring \<times> formdata) list" where
  "requests [] = []"
| "requests (Fetch url form # es) = (url, form) # requests es"
| "requests (e # es) = requests es"

fun spoken :: "effect list \<Rightarrow> utterance list" where
  "spoken [] = []"
| "spoken (Speak u # es) = u # spoken es"
| "spoken (e # es) = spoken es"

fun toasts :: "effect list \<Rightarrow> toast list" where
  "toasts [] = []"
| "toasts (ToastShown t # es) = t # toasts es"
| "toasts (e # es) = toasts es"

section \<open>ChatInterface: state and handlers\<close>

datatype message_type = MsgText | MsgImage | MsgVoice

datatype sender = User | Bot

record message =
  message_id :: jsstring
  content :: jsval
  message_type :: message_type
  sender :: sender
  timestamp :: nat
  fileUrl :: jsval

record session =
  session_id :: jsstring
  session_name :: jsstring
  messages :: "message list"
  createdAt :: nat

text \<open>
  \<^verbatim>\<open>Date.now().toString()\<close>: the decimal digits of a millisecond count. A pair of clock
  readings stands for the \<^verbatim>\<open>Date.now()\<close> and the \<^verbatim>\<open>new Date()\<close> of one call.
\<close>

function toString :: "nat \<Rightarrow> jsstring" where
  "toString n = (if n < 10 then [of_nat (48 + n)] else toString (n div 10) @ [of_nat (48 + n mod 10)])"
  by pat_completeness auto
termination
  by (relation "measure (\<lambda>n. n)") auto

declare toString.simps [simp del]

type_synonym clock = "nat \<times> nat"

text \<open>
  \<^verbatim>\<open>String.prototype.trim\<close> removes the white space and line terminators of ECMAScript
  at both ends.
\<close>

definition is_white_space :: "16 word \<Rightarrow> bool" where
  "is_white_space c =
     (unat c \<in> set [0x0009, 0x000A, 0x000B, 0x000C, 0x000D, 0x0020, 0x00A0, 0x1680,
                     0x2028, 0x2029, 0x202F, 0x205F, 0x3000, 0xFEFF]
      \<or> (0x2000 \<le> unat c \<and> unat c \<le> 0x200A))"

definition trim :: "jsstring \<Rightarrow> jsstring" where
  "trim s = rev (dropWhile is_white_space (rev (dropWhile is_white_space s)))"

text \<open>
  The handlers of a recorder of the chat panel are closures of the render in which the
  recording was started: they append to their own \<^verbatim>\<open>chunks\<close> and read the
  \<^verbatim>\<open>activeSession\<close> of that render.
\<close>

record chat_recorder =
  chat_rstate :: recorder_state
  chunks :: "blobpart list"
  captured_activeSession :: jsstring

record chat_interface =
  sessions :: "session list"
  activeSession :: jsstring
  inputMessage :: jsstring
  isRecording :: bool
  chat_mediaRecorderRef :: "chat_recorder option"
  chat_effects :: "effect list"

definition chat_init :: "nat \<Rightarrow> chat_interface" where
  "chat_init date =
     \<lparr>sessions = [\<lparr>session_id = ascii ''1'', session_name = ascii ''New Chat'', messages = [],
                    createdAt = date\<rparr>],
      activeSession = ascii ''1'', inputMessage = [], isRecording = False,
      chat_mediaRecorderRef = None, chat_effects = []\<rparr>"

definition chat_emit :: "effect \<Rightarrow> chat_interface \<Rightarrow> chat_interface" where
  "chat_emit e st = st\<lparr>chat_effects := chat_effects st @ [e]\<rparr>"

definition chat_transcribe_url :: jsstring where
  "chat_transcribe_url = ascii ''https://healthcare-m3c6.onrender.com/api/transcribe''"

definition chat_chat_url :: jsstring where
  "chat_chat_url = ascii ''https://healthcare-m3c6.onrender.com/api/chat''"

text \<open>
  \<^verbatim>\<open>addMessage\<close> reads the \<^verbatim>\<open>activeSession\<close> of the render that created it (the
  first argument) and updates the current list of sessions.
\<close>

definition addMessage ::
    "jsstring \<Rightarrow> jsval \<Rightarrow> message_type \<Rightarrow> sender \<Rightarrow> jsval \<Rightarrow> clock \<Rightarrow> chat_interface \<Rightarrow> chat_interface" where
  "addMessage active cont ty snder url clk st =
    (let newMessage = \<lparr>message_id = toString (fst clk), content = cont, message_type = ty,
                        sender = snder, timestamp = snd clk, fileUrl = url\<rparr>
     in st\<lparr>sessions :=
          map (\<lambda>s. if session_id s = active then s\<lparr>messages := messages s @ [newMessage]\<rparr> else s)
            (sessions st)\<rparr>)"

record send_env =
  user_clock :: clock
  send_reply :: fetch_result
  bot_clock :: clock

definition handleSendMessage :: "send_env \<Rightarrow> chat_interface \<Rightarrow> chat_interface" where
  "handleSendMessage env st =
    (if trim (inputMessage st) = [] then st
     else
       (let sessionId' = activeSession st;
            userText = trim (inputMessage st);
            st1 = addMessage (activeSession st) (Str userText) MsgText User Undefined (user_clock env) st;
            st2 = st1\<lparr>inputMessage := []\<rparr>;
            formData = [(''session_id'', Text (Str sessionId')), (''message'', Text (Str userText))];
            st3 = chat_emit (Fetch chat_chat_url formData) st2;
            failed = chat_emit (ToastShown (error_toast (ascii ''Failed to connect to chatbot''))) st3
        in case send_reply env of
             NetworkError msg \<Rightarrow> failed
           | Response status b \<Rightarrow>
               (case b of
                  BodyError msg \<Rightarrow> failed
                | BodyJson d \<Rightarrow>
                    if ok status
                    then addMessage (activeSession st) (data_response d) MsgText Bot Undefined (bot_clock env) st3
                    else chat_emit (ToastShown (error_toast (or_else (data_detail d) (ascii ''Chat failed'')))) st3)))"

text \<open>The file chosen in the file input (a blob with a name), if any, and its object URL.\<close>

record upload_env =
  chosen_file :: "(blob \<times> jsstring) option"
  image_url :: jsstring
  image_clock :: clock
  upload_reply :: fetch_result
  answer_clock :: clock

definition handleFileUpload :: "upload_env \<Rightarrow> chat_interface \<Rightarrow> chat_interface" where
  "handleFileUpload env st =
    (case chosen_file env of
       None \<Rightarrow> st
     | Some (file, file_name) \<Rightarrow>
       (let sessionId' = activeSession st;
            st1 = addMessage (activeSession st) (Str (ascii ''Image uploaded'')) MsgImage User
                    (Str (image_url env)) (image_clock env) st;
            formData = [(''session_id'', Text (Str sessionId')), (''file'', File file file_name)];
            st2 = chat_emit (Fetch chat_chat_url formData) st1;
            failed = chat_emit (ToastShown (error_toast (ascii ''Could not send image''))) st2
        in case upload_reply env of
             NetworkError msg \<Rightarrow> failed
           | Response status b \<Rightarrow>
               (case b of
                  BodyError msg \<Rightarrow> failed
                | BodyJson d \<Rightarrow>
                    if ok status
                    then addMessage (activeSession st) (data_response d) MsgText Bot Undefined (answer_clock env) st2
                    else chat_emit (ToastShown (error_toast (or_else (data_detail d) (ascii ''Image processing failed'')))) st2)))"

definition startVoiceRecording :: "mic_result \<Rightarrow> chat_interface \<Rightarrow> chat_interface" where
  "startVoiceRecording m st =
    (let st1 = chat_emit GetUserMedia st
     in case m of
          Denied \<Rightarrow> chat_emit (ToastShown (error_toast (ascii ''Could not access microphone''))) st1
        | Granted \<Rightarrow>
            (let mediaRecorder = \<lparr>chat_rstate = Recording, chunks = [],
                                  captured_activeSession = activeSession st\<rparr>;
                 st2 = st1\<lparr>chat_mediaRecorderRef := Some mediaRecorder\<rparr>;
                 st3 = chat_emit RecorderStart st2
             in st3\<lparr>isRecording := True\<rparr>))"

text \<open>What the environment supplies when the recorder of the chat panel stops.\<close>

record stop_env =
  voice_data :: "blobpart list"
  voice_url :: jsstring
  voice_clock :: clock
  voice_transcribe_reply :: fetch_result
  text_clock :: clock
  voice_chat_reply :: fetch_result
  reply_clock :: clock

text \<open>
  The stop handler of the chat panel builds a blob of type \<^verbatim>\<open>audio/webm\<close> from the chunks,
  whose object URL the voice message shows. What it uploads is
  \<^verbatim>\<open>new File([blob], "voice.webm")\<close>: a file with the content of the blob and, no type
  being given to the constructor, the empty type.
\<close>

definition chat_onstop :: "chat_recorder \<Rightarrow> stop_env \<Rightarrow> chat_interface \<Rightarrow> chat_interface" where
  "chat_onstop r env st =
    (let active = captured_activeSession r;
         blob = \<lparr>parts = chunks r, blob_type = ascii ''audio/webm''\<rparr>;
         st1 = addMessage active (Str (ascii ''Voice message'')) MsgVoice User (Str (voice_url env))
                 (voice_clock env) st;
         formData = [(''file'', File (blob\<lparr>blob_type := []\<rparr>) (ascii ''voice.webm''))];
         st2 = chat_emit (Fetch chat_transcribe_url formData) st1;
         upload_failed = (\<lambda>s. chat_emit (ToastShown (error_toast (ascii ''Voice upload failed''))) s);
         st3 =
           (case voice_transcribe_reply env of
              NetworkError msg \<Rightarrow> upload_failed st2
            | Response status b \<Rightarrow>
                (case b of
                   BodyError msg \<Rightarrow> upload_failed st2
                 | BodyJson d \<Rightarrow>
                     if ok status \<and> truthy (data_text d)
                     then
                       (let st4 = addMessage active (data_text d) MsgText User Undefined (text_clock env) st2;
                            chatData = [(''session_id'', Text (Str active)), (''message'', Text (data_text d))];
                            st5 = chat_emit (Fetch chat_chat_url chatData) st4
                        in case voice_chat_reply env of
                             NetworkError msg \<Rightarrow> upload_failed st5
                           | Response chat_status cb \<Rightarrow>
                               (case cb of
                                  BodyError msg \<Rightarrow> upload_failed st5
                                | BodyJson chatResp \<Rightarrow>
                                    if ok chat_status
                                    then addMessage active (data_response chatResp) MsgText Bot Undefined
                                           (reply_clock env) st5
                                    else st5))
                     else chat_emit (ToastShown (error_toast (ascii ''Transcription failed''))) st2))
     in chat_emit TracksStop st3)"

definition stopVoiceRecording :: "chat_interface \<Rightarrow> chat_interface" where
  "stopVoiceRecording st =
    (case chat_mediaRecorderRef st of
       Some r \<Rightarrow>
         if isRecording st
         then (chat_emit RecorderStop
                 (st\<lparr>chat_mediaRecorderRef := Some (r\<lparr>chat_rstate := recorder_stop (chat_rstate r)\<rparr>)\<rparr>))
                \<lparr>isRecording := False\<rparr>
         else st
     | None \<Rightarrow> st)"

definition createNewSession :: "clock \<Rightarrow> chat_interface \<Rightarrow> chat_interface" where
  "createNewSession clk st =
    (let newSession = \<lparr>session_id = toString (fst clk),
                        session_name = ascii ''Chat '' @ toString (length (sessions st) + 1),
                        messages = [], createdAt = snd clk\<rparr>
     in st\<lparr>sessions := sessions st @ [newSession], activeSession := session_id newSession\<rparr>)"

subsection \<open>The events of the chat panel\<close>

text \<open>
  The platform dispatches the queued events of a stopped recorder: \<^verbatim>\<open>dataavailable\<close>,
  which appends to the recorder's chunks, then \<^verbatim>\<open>stop\<close>.
\<close>

definition chat_dispatch :: "stop_env \<Rightarrow> chat_interface \<Rightarrow> chat_interface" where
  "chat_dispatch env st =
    (case chat_mediaRecorderRef st of
       None \<Rightarrow> st
     | Some r \<Rightarrow>
         if chat_rstate r = StopQueued
         then (let r1 = r\<lparr>chat_rstate := Inactive, chunks := chunks r @ voice_data env\<rparr>
               in chat_onstop r1 env (st\<lparr>chat_mediaRecorderRef := Some r1\<rparr>))
         else st)"

text \<open>
  The user types, sends, chooses a file, clicks the microphone button, opens a new chat, or
  clicks the card of the session at some position of the side bar. Each event is handled
  to the end before the next one arrives.
\<close>

datatype chat_event =
    TypeInput jsstring
  | SendMessage send_env
  | FileUpload upload_env
  | MicClick mic_result stop_env
  | NewChat clock
  | SelectSession nat

fun chat_step :: "chat_interface \<Rightarrow> chat_event \<Rightarrow> chat_interface" where
  "chat_step st (TypeInput s) = st\<lparr>inputMessage := s\<rparr>"
| "chat_step st (SendMessage env) = handleSendMessage env st"
| "chat_step st (FileUpload env) = handleFileUpload env st"
| "chat_step st (MicClick m env) =
     chat_dispatch env (if isRecording st then stopVoiceRecording st else startVoiceRecording m st)"
| "chat_step st (NewChat clk) = createNewSession clk st"
| "chat_step st (SelectSession i) =
     (if i < length (sessions st) then st\<lparr>activeSession := session_id (sessions st ! i)\<rparr> else st)"

declare chat_step.simps [simp del]

section \<open>Vocabulary of the results\<close>

text \<open>
  The effects a handler of the voice screen adds to a state, and the fields of a successful
  reply: the request resolved with a status from 200 to 299 and a body that could be read.
\<close>

definition new_effects :: "voice_mode \<Rightarrow> voice_mode \<Rightarrow> effect list" where
  "new_effects st st' = drop (length (effects st)) (effects st')"

fun reply_json :: "fetch_result \<Rightarrow> json_reply option" where
  "reply_json (Response status (BodyJson d)) = (if ok status then Some d else None)"
| "reply_json _ = None"

text \<open>The recorder of the voice screen is recording.\<close>

definition is_recording :: "voice_mode \<Rightarrow> bool" where
  "is_recording st = (case mediaRecorderRef st of None \<Rightarrow> False | Some r \<Rightarrow> rstate r = Recording)"

text \<open>
  What holds of the voice screen between events: nothing is being processed, the screen
  shows a recording exactly when the recorder records, no stop event is waiting, the
  session id the recorder's handlers read is the stored one, and nothing is queued for
  speech while the screen listens.
\<close>

definition voice_inv :: "voice_mode \<Rightarrow> bool" where
  "voice_inv st =
     (\<not> isProcessing st
      \<and> (case mediaRecorderRef st of
            None \<Rightarrow> \<not> isListening st
          | Some r \<Rightarrow> (isListening st \<longleftrightarrow> rstate r = Recording) \<and> rstate r \<noteq> StopQueued
                      \<and> (rstate r = Recording \<longrightarrow> captured_sessionId r = sessionId st))
      \<and> (isListening st \<longrightarrow> speechSynthesis st = []))"

text \<open>
  The description of the notification of a \<^verbatim>\<open>catch\<close> block of the voice screen:
  \<^verbatim>\<open>err.message || dflt\<close>, where the error is the one thrown by the handler itself on
  a status outside 200 to 299, or the one the platform rejected with.
\<close>

fun failure_text :: "jsstring \<Rightarrow> jsstring \<Rightarrow> fetch_result \<Rightarrow> jsstring" where
  "failure_text thrown dflt (NetworkError msg) = or_else (Str msg) dflt"
| "failure_text thrown dflt (Response status (BodyError msg)) =
     (if ok status then or_else (Str msg) dflt else thrown)"
| "failure_text thrown dflt (Response status (BodyJson d)) = thrown"

text \<open>The effects a handler of the chat panel adds to a state.\<close>

definition chat_new_effects :: "chat_interface \<Rightarrow> chat_interface \<Rightarrow> effect list" where
  "chat_new_effects st st' = drop (length (chat_effects st)) (chat_effects st')"

text \<open>The message an \<^verbatim>\<open>addMessage\<close> call builds.\<close>

definition newMessage :: "jsval \<Rightarrow> message_type \<Rightarrow> sender \<Rightarrow> jsval \<Rightarrow> clock \<Rightarrow> message" where
  "newMessage cont ty snder url clk =
     \<lparr>message_id = toString (fst clk), content = cont, message_type = ty, sender = snder,
      timestamp = snd clk, fileUrl = url\<rparr>"

text \<open>
  A later list of sessions extends an earlier one: the earlier sessions are still there, at
  the same positions and with the same identity, and the messages each had are a prefix of
  the messages it has.
\<close>

definition sessions_extend :: "session list \<Rightarrow> session list \<Rightarrow> bool" where
  "sessions_extend ss ss' =
     (length ss \<le> length ss'
      \<and> list_all2 (\<lambda>s s'. session_id s' = session_id s \<and> session_name s' = session_name s
                     \<and> createdAt s' = createdAt s \<and> prefix (messages s) (messages s'))
           ss (take (length ss) ss'))"

text \<open>What one \<^verbatim>\<open>addMessage\<close> call does to the list of sessions.\<close>

definition append_to :: "jsstring \<Rightarrow> message \<Rightarrow> session list \<Rightarrow> session list" where
  "append_to active m ss =
     map (\<lambda>s. if session_id s = active then s\<lparr>messages := messages s @ [m]\<rparr> else s) ss"

text \<open>
  What holds of the recorder of the chat panel between events: the panel shows a recording
  exactly when the recorder records, no stop event is waiting, and the session ids the
  handlers read exist.
\<close>

definition chat_inv :: "chat_interface \<Rightarrow> bool" where
  "chat_inv st =
     (activeSession st \<in> set (map session_id (sessions st))
      \<and> (case chat_mediaRecorderRef st of
            None \<Rightarrow> \<not> isRecording st
          | Some r \<Rightarrow> (isRecording st \<longleftrightarrow> chat_rstate r = Recording) \<and> chat_rstate r \<noteq> StopQueued
                      \<and> captured_activeSession r \<in> set (map session_id (sessions st))))"

text \<open>The event is a click on the microphone button of the chat panel.\<close>

fun is_mic_click :: "chat_event \<Rightarrow> bool" where
  "is_mic_click (MicClick m env) = True"
| "is_mic_click ev = False"

text \<open>The state of the chat panel, mounted at some date, after a list of events.\<close>

definition chat_run :: "nat \<Rightarrow> chat_event list \<Rightarrow> chat_interface" where
  "chat_run date evs = foldl chat_step (chat_init date) evs"

text \<open>The transcription requests and the calls of \<^verbatim>\<open>stop()\<close> among a list of effects.\<close>

definition transcriptions :: "effect list \<Rightarrow> (jsstring \<times> formdata) list" where
  "transcriptions es =
     filter (\<lambda>(u, f). u = chat_transcribe_url \<or> u = voice_transcribe_url) (requests es)"

definition stops :: "effect list \<Rightarrow> effect list" where
  "stops es = filter (\<lambda>e. e = RecorderStop) es"

section \<open>The page: the voice screen between its awaits\<close>

text \<open>
  A handler of the voice screen gives control back at each \<^verbatim>\<open>await\<close>, and other events
  are handled before it goes on. The pieces of the handlers between their awaits follow.
  What a piece reads from the render that created it (the \<^verbatim>\<open>sessionId\<close>) is an
  argument.

  \<^verbatim>\<open>startListening\<close> up to \<^verbatim>\<open>await getUserMedia\<close>, and from the answer on.
\<close>

definition startListening_until_await :: "voice_mode \<Rightarrow> voice_mode" where
  "startListening_until_await st =
    (let st1 = (if speaking (speechSynthesis st) \<or> pending (speechSynthesis st) then cancel st else st)
     in emit GetUserMedia st1)"

definition startListening_after_await :: "jsval \<Rightarrow> mic_result \<Rightarrow> voice_mode \<Rightarrow> voice_mode" where
  "startListening_after_await sid m st2 =
    (case m of
       Denied \<Rightarrow> emit (ToastShown (error_toast (ascii ''Could not access microphone''))) st2
     | Granted \<Rightarrow>
         (let mediaRecorder = \<lparr>rstate = Recording, captured_sessionId = sid\<rparr>;
              st3 = st2\<lparr>mediaRecorderRef := Some mediaRecorder, audioChunksRef := []\<rparr>;
              st4 = emit RecorderStart st3
          in st4\<lparr>isListening := True, transcript := Str [], response := Str []\<rparr>))"

text \<open>
  \<^verbatim>\<open>onstop\<close> up to the \<^verbatim>\<open>await fetch\<close> of \<^verbatim>\<open>handleTranscription\<close>; from the reply
  of the transcription service up to the \<^verbatim>\<open>await fetch\<close> of \<^verbatim>\<open>handleChat\<close> (or, when
  the transcription failed, to the end of \<^verbatim>\<open>onstop\<close>); and from the reply of the chat
  service to the end of \<^verbatim>\<open>onstop\<close>.
\<close>

definition onstop_until_await :: "voice_mode \<Rightarrow> voice_mode" where
  "onstop_until_await st =
    (let st1 = st\<lparr>isProcessing := True\<rparr>;
         audioBlob = \<lparr>parts = audioChunksRef st1, blob_type = ascii ''audio/webm''\<rparr>;
         formData = [(''file'', File audioBlob (ascii ''recording.webm''))]
     in emit (Fetch voice_transcribe_url formData) st1)"

definition handleTranscription_after_await :: "jsval \<Rightarrow> fetch_result \<Rightarrow> voice_mode \<Rightarrow> voice_mode" where
  "handleTranscription_after_await sid reply st1 =
    (let failed = (\<lambda>msg. emit TracksStop
                     ((emit (ToastShown (error_toast (or_else (Str msg) (ascii ''Transcription error'')))) st1)
                        \<lparr>isProcessing := False\<rparr>))
     in case reply of
          NetworkError msg \<Rightarrow> failed msg
        | Response status b \<Rightarrow>
            if \<not> ok status then failed (ascii ''Transcription failed'')
            else (case b of
                    BodyError msg \<Rightarrow> failed msg
                  | BodyJson d \<Rightarrow>
                      (let txt = data_text d;
                           st2 = st1\<lparr>transcript := txt\<rparr>;
                           formData = (if truthy sid then [(''session_id'', Text sid)] else [])
                                        @ [(''message'', Text txt)]
                       in emit (Fetch voice_chat_url formData) st2)))"

definition handleChat_after_await :: "fetch_result \<Rightarrow> voice_mode \<Rightarrow> voice_mode" where
  "handleChat_after_await reply st1 =
    (let failed = (\<lambda>msg. (emit (ToastShown (error_toast (or_else (Str msg) (ascii ''Chat error'')))) st1)
                      \<lparr>isProcessing := False\<rparr>)
     in emit TracksStop
          (case reply of
             NetworkError msg \<Rightarrow> failed msg
           | Response status b \<Rightarrow>
               if \<not> ok status then failed (ascii ''Chat request failed'')
               else (case b of
                       BodyError msg \<Rightarrow> failed msg
                     | BodyJson d \<Rightarrow>
                         (let st2 = st1\<lparr>response := data_response d, sessionId := data_session_id d\<rparr>;
                              u = \<lparr>utterance_text = data_response d,
                                   lang = detectLanguage (ToString (data_response d))\<rparr>;
                              st3 = emit (Speak u) (st2\<lparr>speechSynthesis := speechSynthesis st2 @ [u]\<rparr>)
                          in st3\<lparr>isProcessing := False\<rparr>))))"

text \<open>
  \<^verbatim>\<open>Index\<close> shows the chat panel or the voice screen, as \<^verbatim>\<open>currentMode\<close> says; the
  buttons of \<^verbatim>\<open>ModeToggle\<close> set it. Leaving the voice mode unmounts the voice screen:
  its state is dropped, but nothing is cleaned up, and what its handlers await still
  settles. Coming back mounts a fresh voice screen. The synthesiser and the effects belong
  to the platform and outlive the screens.
\<close>

datatype mode = ChatMode | VoiceMode

text \<open>
  What a suspended handler awaits, with the voice screen it belongs to (the number of its
  mount) and the \<^verbatim>\<open>sessionId\<close> its closure holds; and what the platform answers.
\<close>

datatype awaited = AwaitMic nat jsval | AwaitTranscription nat jsval | AwaitChat nat

datatype answer = MicAnswer mic_result | FetchAnswer fetch_result

text \<open>
  The state of the page: the mode, the number of the mounted voice screen, its state
  together with the state of the platform, and the suspended handlers. (The chat panel
  plays no part in what follows and is left out.)
\<close>

record page =
  currentMode :: mode
  mounts :: nat
  screen :: voice_mode
  awaiting :: "awaited list"


text \<open>
  A piece of a handler of a voice screen that is no longer mounted: its state setters do
  nothing and its refs are its own; what it does to the platform remains.
\<close>

definition detached :: "(voice_mode \<Rightarrow> voice_mode) \<Rightarrow> voice_mode \<Rightarrow> voice_mode" where
  "detached f st = st\<lparr>speechSynthesis := speechSynthesis (f st), effects := effects (f st)\<rparr>"

definition run_on :: "nat \<Rightarrow> (voice_mode \<Rightarrow> voice_mode) \<Rightarrow> page \<Rightarrow> page" where
  "run_on i f pg =
     pg\<lparr>screen := (if currentMode pg = VoiceMode \<and> i = mounts pg then f (screen pg)
                    else detached f (screen pg))\<rparr>"

definition onModeChange :: "mode \<Rightarrow> page \<Rightarrow> page" where
  "onModeChange m pg =
     (if m = currentMode pg then pg
      else (case m of
              ChatMode \<Rightarrow> pg\<lparr>currentMode := ChatMode\<rparr>
            | VoiceMode \<Rightarrow>
                pg\<lparr>currentMode := VoiceMode, mounts := mounts pg + 1,
                   screen := voice_init\<lparr>speechSynthesis := speechSynthesis (screen pg),
                                        effects := effects (screen pg)\<rparr>\<rparr>))"

text \<open>
  A click on the button of the voice screen (disabled while \<^verbatim>\<open>isProcessing\<close>). When it
  stops the recorder, the platform delivers the recorded data and the \<^verbatim>\<open>stop\<close> event;
  the page takes them with the click, so that a stopped recording is on its way to the
  transcription service from the click on.
\<close>

definition button_click :: "blobpart list \<Rightarrow> page \<Rightarrow> page" where
  "button_click data pg =
     (let st = screen pg
      in if currentMode pg \<noteq> VoiceMode \<or> isProcessing st then pg
         else if isListening st
         then (let st1 = stopListening st
               in case mediaRecorderRef st1 of
                    None \<Rightarrow> pg\<lparr>screen := st1\<rparr>
                  | Some r \<Rightarrow>
                      if rstate r = StopQueued
                      then (let st2 = st1\<lparr>mediaRecorderRef := Some (r\<lparr>rstate := Inactive\<rparr>)\<rparr>;
                                st3 = foldl (\<lambda>s c. ondataavailable c s) st2 data
                            in pg\<lparr>screen := onstop_until_await st3,
                                  awaiting := awaiting pg @ [AwaitTranscription (mounts pg) (captured_sessionId r)]\<rparr>)
                      else pg\<lparr>screen := st1\<rparr>)
         else pg\<lparr>screen := startListening_until_await st,
                 awaiting := awaiting pg @ [AwaitMic (mounts pg) (sessionId st)]\<rparr>)"

text \<open>The handler suspended at a position is resumed with an answer.\<close>

fun resume :: "awaited \<Rightarrow> answer \<Rightarrow> page \<Rightarrow> page" where
  "resume (AwaitMic i sid) (MicAnswer m) pg = run_on i (startListening_after_await sid m) pg"
| "resume (AwaitTranscription i sid) (FetchAnswer reply) pg =
     (let pg1 = run_on i (handleTranscription_after_await sid reply) pg
      in if reply_json reply = None then pg1 else pg1\<lparr>awaiting := awaiting pg1 @ [AwaitChat i]\<rparr>)"
| "resume (AwaitChat i) (FetchAnswer reply) pg = run_on i (handleChat_after_await reply) pg"
| "resume w a pg = pg"

fun answers :: "awaited \<Rightarrow> answer \<Rightarrow> bool" where
  "answers (AwaitMic i sid) (MicAnswer m) = True"
| "answers (AwaitTranscription i sid) (FetchAnswer reply) = True"
| "answers (AwaitChat i) (FetchAnswer reply) = True"
| "answers w a = False"

definition settle :: "nat \<Rightarrow> answer \<Rightarrow> page \<Rightarrow> page" where
  "settle k a pg =
     (if k < length (awaiting pg) \<and> answers (awaiting pg ! k) a
      then resume (awaiting pg ! k) a (pg\<lparr>awaiting := take k (awaiting pg) @ drop (Suc k) (awaiting pg)\<rparr>)
      else pg)"

datatype page_event =
    ModeChange mode
  | ButtonClick "blobpart list"
  | Settle nat answer
  | SpeechEnd

fun page_step :: "page \<Rightarrow> page_event \<Rightarrow> page" where
  "page_step pg (ModeChange m) = onModeChange m pg"
| "page_step pg (ButtonClick data) = button_click data pg"
| "page_step pg (Settle k a) = settle k a pg"
| "page_step pg SpeechEnd = pg\<lparr>screen := (screen pg)\<lparr>speechSynthesis := tl (speechSynthesis (screen pg))\<rparr>\<rparr>"






text \<open>The events of the page that make up one click handled to the end with nothing in between.\<close>

definition click_events :: "voice_env \<Rightarrow> voice_mode \<Rightarrow> page_event list" where
  "click_events env st =
     (if isListening st
      then [ButtonClick (recorded env), Settle 0 (FetchAnswer (transcribe_reply env))]
           @ (if reply_json (transcribe_reply env) = None then []
              else [Settle 0 (FetchAnswer (chat_reply env))])
      else [ButtonClick [], Settle 0 (MicAnswer (mic env))])"

section \<open>Facts about strings\<close>

lemma unat_ascii_char: "unat (of_nat (of_char c) :: 16 word) = of_char c"
proof -
  have "(of_char c :: nat) < 256"
    by (metis of_char_mod_256 mod_less_divisor zero_less_numeral)
  then have "(of_char c :: nat) mod 65536 = of_char c"
    by (intro mod_less) arith
  then show ?thesis
    by (simp add: unat_of_nat)
qed

lemma ascii_inj [simp]: "ascii s = ascii t \<longleftrightarrow> s = t"
proof
  assume "ascii s = ascii t"
  then have "map unat (ascii s) = map unat (ascii t)"
    by simp
  then have "map (of_char :: char \<Rightarrow> nat) s = map of_char t"
    by (simp add: ascii_def unat_ascii_char comp_def)
  then show "s = t"
    by (simp add: inj_map_eq_map inj_of_char)
qed simp

lemma regex_test_Nil [simp]: "regex_test cls [] = False"
  by (simp add: regex_test_def)

lemma regex_test_Cons [simp]:
  "regex_test cls (c # txt) =
     (list_ex (\<lambda>(lo, hi). lo \<le> unat c \<and> unat c \<le> hi) cls \<or> regex_test cls txt)"
  by (simp add: regex_test_def)

lemma regex_test_sub:
  "regex_test cls txt \<Longrightarrow> set cls \<subseteq> set cls' \<Longrightarrow> regex_test cls' txt"
  by (auto simp: regex_test_def list_ex_iff)

section \<open>The language detector: results\<close>

text \<open>
  C9. The language detector is a total function on strings: on every string it returns one
  of the fifteen fixed tags; it returns \<^verbatim>\<open>en-IN\<close> on every string none of whose code
  units lies in a listed script range; and it never returns \<^verbatim>\<open>mr-IN\<close>, because the
  Hindi test, which comes first, succeeds whenever the first half of the Marathi test does.
\<close>

theorem detectLanguage_total_tags_default_no_marathi:
  "detectLanguage txt \<in> set language_tags
   \<and> (\<not> regex_test script_ranges txt \<longrightarrow> detectLanguage txt = ascii ''en-IN'')
   \<and> detectLanguage txt \<noteq> ascii ''mr-IN''"
proof (intro conjI impI)
  show "detectLanguage txt \<in> set language_tags"
    by (simp add: detectLanguage_def language_tags_def)
next
  assume none: "\<not> regex_test script_ranges txt"
  have "\<not> regex_test cls txt" if "set cls \<subseteq> set script_ranges" for cls
    using none that regex_test_sub by blast
  then show "detectLanguage txt = ascii ''en-IN''"
    by (simp add: detectLanguage_def script_ranges_def)
next
  show "detectLanguage txt \<noteq> ascii ''mr-IN''"
    by (simp add: detectLanguage_def)
qed

theorem detectLanguage_witness:
  "detectLanguage (ascii ''hello'') \<in> set language_tags
   \<and> \<not> regex_test script_ranges (ascii ''hello'')
   \<and> detectLanguage (ascii ''hello'') = ascii ''en-IN''
   \<and> detectLanguage [0x0928, 0x092E, 0x0938, 0x094D, 0x0924, 0x0947] = ascii ''hi-IN''
   \<and> detectLanguage [0x0931] \<noteq> ascii ''mr-IN''"
proof -
  have none: "\<not> regex_test script_ranges (ascii ''hello'')"
    by (simp add: script_ranges_def ascii_def)
  have hi: "detectLanguage [0x0928, 0x092E, 0x0938, 0x094D, 0x0924, 0x0947] = ascii ''hi-IN''"
    by (simp add: detectLanguage_def)
  show ?thesis
    using none hi
      detectLanguage_total_tags_default_no_marathi [of "ascii ''hello''"]
      detectLanguage_total_tags_default_no_marathi [of "[0x0931]"]
    by blast
qed

section \<open>VoiceMode: facts about the handlers\<close>

lemma ascii_Nil [simp]: "ascii s = [] \<longleftrightarrow> s = []" "[] = ascii s \<longleftrightarrow> s = []"
  by (auto simp: ascii_def)

lemma requests_append [simp]: "requests (xs @ ys) = requests xs @ requests ys"
  by (induction xs rule: requests.induct) simp_all

lemma spoken_append [simp]: "spoken (xs @ ys) = spoken xs @ spoken ys"
  by (induction xs rule: spoken.induct) simp_all

lemma toasts_append [simp]: "toasts (xs @ ys) = toasts xs @ toasts ys"
  by (induction xs rule: toasts.induct) simp_all

lemma effects_handleChat:
  "effects (handleChat sid message reply st) =
     effects st @
     [Fetch voice_chat_url ((if truthy sid then [(''session_id'', Text sid)] else []) @ [(''message'', Text message)]),
      (case reply_json reply of
         Some d \<Rightarrow> Speak \<lparr>utterance_text = data_response d, lang = detectLanguage (ToString (data_response d))\<rparr>
       | None \<Rightarrow> ToastShown (error_toast (failure_text (ascii ''Chat request failed'') (ascii ''Chat error'') reply)))]"
  by (auto simp: handleChat_def Let_def emit_def split: fetch_result.splits body.splits)

lemma state_handleChat:
  "sessionId (handleChat sid message reply st) = (case reply_json reply of Some d \<Rightarrow> data_session_id d | None \<Rightarrow> sessionId st)"
  "response (handleChat sid message reply st) = (case reply_json reply of Some d \<Rightarrow> data_response d | None \<Rightarrow> response st)"
  "isProcessing (handleChat sid message reply st) = False"
  "isListening (handleChat sid message reply st) = isListening st"
  "mediaRecorderRef (handleChat sid message reply st) = mediaRecorderRef st"
  "transcript (handleChat sid message reply st) = transcript st"
  "audioChunksRef (handleChat sid message reply st) = audioChunksRef st"
  "speechSynthesis (handleChat sid message reply st) = speechSynthesis st @
      (case reply_json reply of Some d \<Rightarrow> [\<lparr>utterance_text = data_response d, lang = detectLanguage (ToString (data_response d))\<rparr>] | None \<Rightarrow> [])"
  by (auto simp: handleChat_def Let_def emit_def split: fetch_result.splits body.splits)

lemma handleTranscription_cases:
  "handleTranscription sid audioBlob reply chat st =
     (case reply_json reply of
        Some d \<Rightarrow> handleChat sid (data_text d) chat
                    ((emit (Fetch voice_transcribe_url [(''file'', File audioBlob (ascii ''recording.webm''))]) st)
                       \<lparr>transcript := data_text d\<rparr>)
      | None \<Rightarrow> (emit (ToastShown (error_toast
                    (failure_text (ascii ''Transcription failed'') (ascii ''Transcription error'') reply)))
           (emit (Fetch voice_transcribe_url [(''file'', File audioBlob (ascii ''recording.webm''))]) st))
             \<lparr>isProcessing := False\<rparr>)"
  by (auto simp: handleTranscription_def Let_def emit_def split: fetch_result.splits body.splits)

lemma effects_onstop:
  "effects (onstop r reply chat st) =
     effects st @
     Fetch voice_transcribe_url
       [(''file'', File \<lparr>parts = audioChunksRef st, blob_type = ascii ''audio/webm''\<rparr> (ascii ''recording.webm''))] #
     (case reply_json reply of
        Some t \<Rightarrow>
          [Fetch voice_chat_url
             ((if truthy (captured_sessionId r) then [(''session_id'', Text (captured_sessionId r))] else [])
              @ [(''message'', Text (data_text t))]),
           (case reply_json chat of
              Some d \<Rightarrow> Speak \<lparr>utterance_text = data_response d, lang = detectLanguage (ToString (data_response d))\<rparr>
            | None \<Rightarrow> ToastShown (error_toast (failure_text (ascii ''Chat request failed'') (ascii ''Chat error'') chat)))]
      | None \<Rightarrow>
          [ToastShown (error_toast (failure_text (ascii ''Transcription failed'') (ascii ''Transcription error'') reply))])
     @ [TracksStop]"
  by (simp add: onstop_def Let_def handleTranscription_cases effects_handleChat emit_def split: option.splits)

lemma effects_startListening:
  "effects (startListening m st) =
     effects st @ (if speaking (speechSynthesis st) \<or> pending (speechSynthesis st) then [SynthCancel] else [])
     @ GetUserMedia #
     (case m of Granted \<Rightarrow> [RecorderStart]
      | Denied \<Rightarrow> [ToastShown (error_toast (ascii ''Could not access microphone''))])"
  by (simp add: startListening_def Let_def emit_def cancel_def split: mic_result.splits)

lemma effects_stopListening:
  "effects (stopListening st) =
     effects st @ (if mediaRecorderRef st \<noteq> None \<and> isListening st then [RecorderStop] else [])
     @ (if speaking (speechSynthesis st) \<or> pending (speechSynthesis st) then [SynthCancel] else [])"
  by (auto simp: stopListening_def Let_def emit_def cancel_def split: option.splits)

lemma state_handleTranscription:
  "sessionId (handleTranscription sid blb reply chat st) =
     (case reply_json reply of Some t \<Rightarrow> (case reply_json chat of Some d \<Rightarrow> data_session_id d | None \<Rightarrow> sessionId st) | None \<Rightarrow> sessionId st)"
  "response (handleTranscription sid blb reply chat st) =
     (case reply_json reply of Some t \<Rightarrow> (case reply_json chat of Some d \<Rightarrow> data_response d | None \<Rightarrow> response st) | None \<Rightarrow> response st)"
  "isProcessing (handleTranscription sid blb reply chat st) = False"
  "isListening (handleTranscription sid blb reply chat st) = isListening st"
  "mediaRecorderRef (handleTranscription sid blb reply chat st) = mediaRecorderRef st"
  "transcript (handleTranscription sid blb reply chat st) =
     (case reply_json reply of Some t \<Rightarrow> data_text t | None \<Rightarrow> transcript st)"
  "speechSynthesis (handleTranscription sid blb reply chat st) = speechSynthesis st @
      (case reply_json reply of Some t \<Rightarrow>
         (case reply_json chat of Some d \<Rightarrow> [\<lparr>utterance_text = data_response d, lang = detectLanguage (ToString (data_response d))\<rparr>] | None \<Rightarrow> [])
       | None \<Rightarrow> [])"
  by (simp_all add: handleTranscription_cases state_handleChat emit_def split: option.splits)

lemma foldl_ondataavailable:
  "foldl (\<lambda>s c. ondataavailable c s) st cs = st\<lparr>audioChunksRef := audioChunksRef st @ cs\<rparr>"
  by (induction cs arbitrary: st) (simp_all add: ondataavailable_def)

lemma state_onstop:
  "sessionId (onstop r reply chat st) =
     (case reply_json reply of Some t \<Rightarrow> (case reply_json chat of Some d \<Rightarrow> data_session_id d | None \<Rightarrow> sessionId st) | None \<Rightarrow> sessionId st)"
  "response (onstop r reply chat st) =
     (case reply_json reply of Some t \<Rightarrow> (case reply_json chat of Some d \<Rightarrow> data_response d | None \<Rightarrow> response st) | None \<Rightarrow> response st)"
  "isProcessing (onstop r reply chat st) = False"
  "isListening (onstop r reply chat st) = isListening st"
  "mediaRecorderRef (onstop r reply chat st) = mediaRecorderRef st"
  "transcript (onstop r reply chat st) =
     (case reply_json reply of Some t \<Rightarrow> data_text t | None \<Rightarrow> transcript st)"
  "speechSynthesis (onstop r reply chat st) = speechSynthesis st @
      (case reply_json reply of Some t \<Rightarrow>
         (case reply_json chat of Some d \<Rightarrow> [\<lparr>utterance_text = data_response d, lang = detectLanguage (ToString (data_response d))\<rparr>] | None \<Rightarrow> [])
       | None \<Rightarrow> [])"
  by (simp_all add: onstop_def Let_def emit_def state_handleTranscription split: option.splits)

lemma state_startListening:
  "sessionId (startListening m st) = sessionId st"
  "isProcessing (startListening m st) = isProcessing st"
  "isListening (startListening m st) = (case m of Granted \<Rightarrow> True | Denied \<Rightarrow> isListening st)"
  "mediaRecorderRef (startListening m st) =
     (case m of Granted \<Rightarrow> Some \<lparr>rstate = Recording, captured_sessionId = sessionId st\<rparr> | Denied \<Rightarrow> mediaRecorderRef st)"
  "speechSynthesis (startListening m st) = []"
  by (auto simp: startListening_def Let_def emit_def cancel_def speaking_def split: mic_result.splits)

lemma state_stopListening:
  "sessionId (stopListening st) = sessionId st"
  "response (stopListening st) = response st"
  "transcript (stopListening st) = transcript st"
  "isProcessing (stopListening st) = isProcessing st"
  "isListening (stopListening st) = (isListening st \<and> mediaRecorderRef st = None)"
  "mediaRecorderRef (stopListening st) =
     (case mediaRecorderRef st of None \<Rightarrow> None
      | Some r \<Rightarrow> Some (if isListening st then r\<lparr>rstate := recorder_stop (rstate r)\<rparr> else r))"
  "speechSynthesis (stopListening st) = []"
  "audioChunksRef (stopListening st) = audioChunksRef st"
  by (auto simp: stopListening_def Let_def emit_def cancel_def speaking_def split: option.splits)

lemma state_voice_dispatch:
  "voice_dispatch env st =
     (case mediaRecorderRef st of
        None \<Rightarrow> st
      | Some r \<Rightarrow> if rstate r = StopQueued
          then onstop r (transcribe_reply env) (chat_reply env)
                 (st\<lparr>mediaRecorderRef := Some (r\<lparr>rstate := Inactive\<rparr>),
                     audioChunksRef := audioChunksRef st @ recorded env\<rparr>)
          else st)"
  by (simp add: voice_dispatch_def Let_def foldl_ondataavailable split: option.splits)

lemma voice_inv_click:
  assumes "voice_inv st"
  shows "voice_inv (voice_step st (Click env))"
proof (cases "isListening st")
  case True
  with assms obtain r where r: "mediaRecorderRef st = Some r" "rstate r = Recording"
    by (auto simp: voice_inv_def split: option.splits)
  with assms True show ?thesis
    by (simp add: voice_step.simps voice_inv_def toggleListening_def state_voice_dispatch state_stopListening state_onstop)
next
  case False
  with assms show ?thesis
    by (cases "mic env")
       (auto simp: voice_step.simps voice_inv_def toggleListening_def state_voice_dispatch state_startListening
             split: option.splits)
qed

lemma voice_inv_step: "voice_inv st \<Longrightarrow> voice_inv (voice_step st ev)"
proof (cases ev)
  case (Click env)
  assume "voice_inv st"
  then show ?thesis unfolding Click by (rule voice_inv_click)
next
  case UtteranceEnd
  assume "voice_inv st"
  then show ?thesis unfolding UtteranceEnd
    by (auto simp: voice_step.simps voice_inv_def split: option.splits)
qed

lemma voice_inv_init: "voice_inv voice_init"
  by (simp add: voice_inv_def voice_init_def)

lemma voice_inv_run: "voice_inv (voice_run evs)"
  by (induction evs rule: rev_induct) (simp_all add: voice_run_def voice_inv_init voice_inv_step)

lemma voice_run_snoc: "voice_run (evs @ [ev]) = voice_step (voice_run evs) ev"
  by (simp add: voice_run_def)

lemma new_effects_append: "effects st' = effects st @ es \<Longrightarrow> new_effects st st' = es"
  by (simp add: new_effects_def)

lemma url_distinct [simp]:
  "voice_transcribe_url \<noteq> voice_chat_url" "voice_chat_url \<noteq> voice_transcribe_url"
  by (simp_all add: voice_transcribe_url_def voice_chat_url_def)

text \<open>What a click does in a state that satisfies the invariant, field by field.\<close>

lemma click_idle:
  assumes "voice_inv st" "\<not> isListening st"
  shows "voice_step st (Click env) = startListening (mic env) st"
proof -
  from assms have "\<not> isProcessing st"
    and "case mediaRecorderRef st of None \<Rightarrow> True | Some r \<Rightarrow> rstate r = Inactive"
    by (auto simp: voice_inv_def split: option.splits intro: recorder_state.exhaust)
  then show ?thesis
    using assms(2)
    by (cases "mic env")
       (auto simp: voice_step.simps toggleListening_def voice_dispatch_def startListening_def Let_def
             emit_def cancel_def split: option.splits)
qed

lemma click_listening:
  assumes "voice_inv st" "isListening st"
  shows "\<exists>r. mediaRecorderRef st = Some r \<and> rstate r = Recording
           \<and> captured_sessionId r = sessionId st \<and> speechSynthesis st = []
           \<and> voice_step st (Click env) =
               onstop (r\<lparr>rstate := StopQueued\<rparr>) (transcribe_reply env) (chat_reply env)
                 ((stopListening st)\<lparr>mediaRecorderRef := Some (r\<lparr>rstate := Inactive\<rparr>),
                    audioChunksRef := audioChunksRef st @ recorded env\<rparr>)
           \<and> effects (stopListening st) = effects st @ [RecorderStop]"
proof -
  from assms obtain r where r: "mediaRecorderRef st = Some r" "rstate r = Recording"
      "captured_sessionId r = sessionId st" "speechSynthesis st = []" "\<not> isProcessing st"
    by (auto simp: voice_inv_def split: option.splits)
  have "voice_step st (Click env) =
      onstop (r\<lparr>rstate := StopQueued\<rparr>) (transcribe_reply env) (chat_reply env)
        ((stopListening st)\<lparr>mediaRecorderRef := Some (r\<lparr>rstate := Inactive\<rparr>),
            audioChunksRef := audioChunksRef st @ recorded env\<rparr>)"
    using r assms(2)
    by (simp add: voice_step.simps toggleListening_def state_voice_dispatch state_stopListening)
  moreover have "effects (stopListening st) = effects st @ [RecorderStop]"
    using r assms(2) by (simp add: effects_stopListening speaking_def pending_def)
  ultimately show ?thesis using r by simp
qed

lemma click_isListening:
  "voice_inv st \<Longrightarrow>
   isListening (voice_step st (Click env)) = (\<not> isListening st \<and> mic env = Granted)"
  using click_listening [of st env]
  by (cases "isListening st"; cases "mic env")
     (auto simp: click_idle state_startListening state_onstop state_stopListening)



lemma click_transcript:
  "voice_inv st \<Longrightarrow> isListening st \<Longrightarrow>
   transcript (voice_step st (Click env)) =
     (case reply_json (transcribe_reply env) of Some t \<Rightarrow> data_text t | None \<Rightarrow> transcript st)"
  using click_listening [of st env]
  by (auto simp: state_onstop state_stopListening split: option.splits)


lemma click_effects:
  "voice_inv st \<Longrightarrow>
   effects (voice_step st (Click env)) =
     effects st @
     (if isListening st
      then RecorderStop #
           Fetch voice_transcribe_url
             [(''file'', File \<lparr>parts = audioChunksRef st @ recorded env,
                                 blob_type = ascii ''audio/webm''\<rparr> (ascii ''recording.webm''))] #
           (case reply_json (transcribe_reply env) of
              Some t \<Rightarrow>
                [Fetch voice_chat_url
                   ((if truthy (sessionId st) then [(''session_id'', Text (sessionId st))] else [])
                    @ [(''message'', Text (data_text t))]),
                 (case reply_json (chat_reply env) of
                    Some d \<Rightarrow> Speak \<lparr>utterance_text = data_response d,
                                      lang = detectLanguage (ToString (data_response d))\<rparr>
                  | None \<Rightarrow> ToastShown (error_toast
                      (failure_text (ascii ''Chat request failed'') (ascii ''Chat error'') (chat_reply env))))]
            | None \<Rightarrow>
                [ToastShown (error_toast
                   (failure_text (ascii ''Transcription failed'') (ascii ''Transcription error'')
                      (transcribe_reply env)))])
           @ [TracksStop]
      else (if speaking (speechSynthesis st) \<or> pending (speechSynthesis st) then [SynthCancel] else [])
           @ GetUserMedia #
           (case mic env of Granted \<Rightarrow> [RecorderStart]
            | Denied \<Rightarrow> [ToastShown (error_toast (ascii ''Could not access microphone''))]))"
  using click_listening [of st env]
  by (cases "isListening st")
     (auto simp: click_idle effects_startListening effects_onstop split: option.splits)

lemma click_audioChunksRef:
  "voice_inv st \<Longrightarrow> \<not> isListening st \<Longrightarrow> mic env = Granted \<Longrightarrow>
   audioChunksRef (voice_step st (Click env)) = []"
  by (simp add: click_idle startListening_def Let_def emit_def cancel_def)


lemma step_effects_prefix: "voice_inv st \<Longrightarrow> \<exists>es. effects (voice_step st ev) = effects st @ es"
  by (cases ev) (simp_all add: click_effects voice_step.simps(2))

lemma step_effects_split:
  "voice_inv st \<Longrightarrow> effects (voice_step st ev) = effects st @ new_effects st (voice_step st ev)"
  using step_effects_prefix [of st ev] by (auto simp: new_effects_def)

lemma step_requests:
  "voice_inv st \<Longrightarrow>
   requests (new_effects st (voice_step st ev)) =
     (case ev of
        UtteranceEnd \<Rightarrow> []
      | Click env \<Rightarrow>
          if isListening st
          then (voice_transcribe_url,
                [(''file'', File \<lparr>parts = audioChunksRef st @ recorded env,
                                    blob_type = ascii ''audio/webm''\<rparr> (ascii ''recording.webm''))]) #
               (case reply_json (transcribe_reply env) of
                  Some t \<Rightarrow>
                    [(voice_chat_url,
                      (if truthy (sessionId st) then [(''session_id'', Text (sessionId st))] else [])
                      @ [(''message'', Text (data_text t))])]
                | None \<Rightarrow> [])
          else [])"
  by (cases ev)
     (simp_all add: new_effects_def click_effects voice_step.simps(2) split: option.splits mic_result.splits)

lemma step_spoken:
  "voice_inv st \<Longrightarrow>
   spoken (new_effects st (voice_step st ev)) =
     (case ev of
        UtteranceEnd \<Rightarrow> []
      | Click env \<Rightarrow>
          if isListening st
          then (case reply_json (transcribe_reply env) of
                  Some t \<Rightarrow> (case reply_json (chat_reply env) of
                               Some d \<Rightarrow> [\<lparr>utterance_text = data_response d,
                                            lang = detectLanguage (ToString (data_response d))\<rparr>]
                             | None \<Rightarrow> [])
                | None \<Rightarrow> [])
          else [])"
  by (cases ev)
     (simp_all add: new_effects_def click_effects voice_step.simps(2) split: option.splits mic_result.splits)


section \<open>VoiceMode: results\<close>








lemma inv_is_recording: "voice_inv st \<Longrightarrow> is_recording st = isListening st"
  by (auto simp: voice_inv_def is_recording_def split: option.splits)

text \<open>
  C8. After a successful chat response \<^verbatim>\<open>handleChat\<close> hands exactly one utterance to
  the synthesiser: its text is the \<^verbatim>\<open>response\<close> field as received, and its language
  tag is what the detector computes from that same field.
\<close>

theorem reply_spoken_verbatim:
  "reply_json reply = Some d \<Longrightarrow>
     spoken (new_effects st (handleChat sid message reply st)) =
       [\<lparr>utterance_text = data_response d, lang = detectLanguage (ToString (data_response d))\<rparr>]
     \<and> speechSynthesis (handleChat sid message reply st) =
         speechSynthesis st @
         [\<lparr>utterance_text = data_response d, lang = detectLanguage (ToString (data_response d))\<rparr>]"
  by (simp add: new_effects_def effects_handleChat state_handleChat)

theorem reply_spoken_verbatim_witness:
  "let d = \<lparr>data_text = Undefined, data_response = Str [0x0928, 0x092E, 0x0938, 0x094D, 0x0924, 0x0947],
             data_session_id = Str (ascii ''s1''), data_detail = Undefined\<rparr>;
       st = handleChat Null (Str (ascii ''hi'')) (Response 200 (BodyJson d)) voice_init
   in reply_json (Response 200 (BodyJson d)) = Some d
      \<and> spoken (effects st) =
          [\<lparr>utterance_text = Str [0x0928, 0x092E, 0x0938, 0x094D, 0x0924, 0x0947], lang = ascii ''hi-IN''\<rparr>]
      \<and> speechSynthesis st =
          [\<lparr>utterance_text = Str [0x0928, 0x092E, 0x0938, 0x094D, 0x0924, 0x0947], lang = ascii ''hi-IN''\<rparr>]"
proof -
  define d where "d = \<lparr>data_text = Undefined, data_response = Str [0x0928, 0x092E, 0x0938, 0x094D, 0x0924, 0x0947],
             data_session_id = Str (ascii ''s1''), data_detail = Undefined\<rparr>"
  have okd: "reply_json (Response 200 (BodyJson d)) = Some d"
    by (simp add: ok_def)
  have hi: "detectLanguage (ToString (data_response d)) = ascii ''hi-IN''"
    by (simp add: d_def detectLanguage_def)
  have ne: "new_effects voice_init (handleChat Null (Str (ascii ''hi'')) (Response 200 (BodyJson d)) voice_init)
      = effects (handleChat Null (Str (ascii ''hi'')) (Response 200 (BodyJson d)) voice_init)"
    by (simp add: new_effects_def voice_init_def)
  from reply_spoken_verbatim [OF okd, of voice_init Null "Str (ascii ''hi'')"]
  have "reply_json (Response 200 (BodyJson d)) = Some d
      \<and> spoken (effects (handleChat Null (Str (ascii ''hi'')) (Response 200 (BodyJson d)) voice_init)) =
          [\<lparr>utterance_text = Str [0x0928, 0x092E, 0x0938, 0x094D, 0x0924, 0x0947], lang = ascii ''hi-IN''\<rparr>]
      \<and> speechSynthesis (handleChat Null (Str (ascii ''hi'')) (Response 200 (BodyJson d)) voice_init) =
          [\<lparr>utterance_text = Str [0x0928, 0x092E, 0x0938, 0x094D, 0x0924, 0x0947], lang = ascii ''hi-IN''\<rparr>]"
    unfolding ne hi using okd by (simp add: d_def voice_init_def)
  then show ?thesis
    unfolding Let_def d_def .
qed

section \<open>ChatInterface: facts about the handlers\<close>

lemma sessions_addMessage:
  "sessions (addMessage active cont ty snder url clk st) =
     append_to active (newMessage cont ty snder url clk) (sessions st)"
  by (simp add: addMessage_def newMessage_def append_to_def Let_def)

lemma state_addMessage [simp]:
  "chat_effects (addMessage active cont ty snder url clk st) = chat_effects st"
  "activeSession (addMessage active cont ty snder url clk st) = activeSession st"
  "inputMessage (addMessage active cont ty snder url clk st) = inputMessage st"
  "isRecording (addMessage active cont ty snder url clk st) = isRecording st"
  "chat_mediaRecorderRef (addMessage active cont ty snder url clk st) = chat_mediaRecorderRef st"
  by (simp_all add: addMessage_def Let_def)

lemma state_chat_emit [simp]:
  "chat_effects (chat_emit e st) = chat_effects st @ [e]"
  "sessions (chat_emit e st) = sessions st"
  "activeSession (chat_emit e st) = activeSession st"
  "inputMessage (chat_emit e st) = inputMessage st"
  "isRecording (chat_emit e st) = isRecording st"
  "chat_mediaRecorderRef (chat_emit e st) = chat_mediaRecorderRef st"
  by (simp_all add: chat_emit_def)

lemma ids_append_to [simp]: "map session_id (append_to active m ss) = map session_id ss"
  by (simp add: append_to_def comp_def cong: map_cong)

lemma length_append_to [simp]: "length (append_to active m ss) = length ss"
  by (simp add: append_to_def)

lemma nth_append_to:
  "i < length ss \<Longrightarrow>
   append_to active m ss ! i =
     (ss ! i)\<lparr>messages := messages (ss ! i) @ (if session_id (ss ! i) = active then [m] else [])\<rparr>"
  by (simp add: append_to_def)

lemma sessions_extend_refl [simp]: "sessions_extend ss ss"
  by (simp add: sessions_extend_def list.rel_refl)

lemma sessions_extend_trans:
  assumes "sessions_extend a b" "sessions_extend b c"
  shows "sessions_extend a c"
proof -
  let ?P = "\<lambda>s s'. session_id s' = session_id s \<and> session_name s' = session_name s
                     \<and> createdAt s' = createdAt s \<and> prefix (messages s) (messages s')"
  from assms have len: "length a \<le> length b" "length b \<le> length c"
    and ab: "list_all2 ?P a (take (length a) b)" and bc: "list_all2 ?P b (take (length b) c)"
    by (simp_all add: sessions_extend_def)
  have "list_all2 ?P a (take (length a) c)"
  proof (rule list_all2_all_nthI)
    show "length a = length (take (length a) c)" using len by simp
  next
    fix n assume n: "n < length a"
    with ab len have 1: "?P (a ! n) (b ! n)"
      by (auto dest: list_all2_nthD [where p = n])
    from n len bc have 2: "?P (b ! n) (c ! n)"
      by (auto dest: list_all2_nthD [where p = n])
    from 1 2 n len show "?P (a ! n) (take (length a) c ! n)"
      by (auto intro: prefix_order.trans)
  qed
  with len show ?thesis by (simp add: sessions_extend_def)
qed

lemma sessions_extend_append_to: "sessions_extend ss (append_to active m ss)"
  by (simp add: sessions_extend_def append_to_def list_all2_map2 list.rel_refl)

lemma sessions_extend_append_to_trans:
  "sessions_extend ss ss' \<Longrightarrow> sessions_extend ss (append_to active m ss')"
  using sessions_extend_append_to sessions_extend_trans by blast

lemma sessions_extend_append: "sessions_extend ss (ss @ new)"
  by (simp add: sessions_extend_def list.rel_refl)

subsection \<open>The handlers of the chat panel\<close>

lemma handleSendMessage_blank:
  "trim (inputMessage st) = [] \<Longrightarrow> handleSendMessage env st = st"
  by (simp add: handleSendMessage_def)

lemma sessions_handleSendMessage:
  "sessions (handleSendMessage env st) =
     (if trim (inputMessage st) = [] then sessions st
      else (case reply_json (send_reply env) of
              Some d \<Rightarrow> append_to (activeSession st)
                          (newMessage (data_response d) MsgText Bot Undefined (bot_clock env))
            | None \<Rightarrow> (\<lambda>ss. ss))
             (append_to (activeSession st)
                (newMessage (Str (trim (inputMessage st))) MsgText User Undefined (user_clock env))
                (sessions st)))"
  by (auto simp: handleSendMessage_def Let_def sessions_addMessage
           split: fetch_result.splits body.splits)

lemma requests_handleSendMessage:
  "requests (chat_new_effects st (handleSendMessage env st)) =
     (if trim (inputMessage st) = [] then []
      else [(chat_chat_url, [(''session_id'', Text (Str (activeSession st))),
                            (''message'', Text (Str (trim (inputMessage st))))])])"
  by (auto simp: handleSendMessage_def Let_def chat_new_effects_def
           split: fetch_result.splits body.splits)

lemma state_handleSendMessage:
  "activeSession (handleSendMessage env st) = activeSession st"
  "isRecording (handleSendMessage env st) = isRecording st"
  "chat_mediaRecorderRef (handleSendMessage env st) = chat_mediaRecorderRef st"
  "\<exists>es. chat_effects (handleSendMessage env st) = chat_effects st @ es \<and> RecorderStop \<notin> set es"
  by (auto simp: handleSendMessage_def Let_def split: fetch_result.splits body.splits)

lemma sessions_handleFileUpload:
  "sessions (handleFileUpload env st) =
     (case chosen_file env of
        None \<Rightarrow> sessions st
      | Some f \<Rightarrow>
          (case reply_json (upload_reply env) of
              Some d \<Rightarrow> append_to (activeSession st)
                          (newMessage (data_response d) MsgText Bot Undefined (answer_clock env))
            | None \<Rightarrow> (\<lambda>ss. ss))
             (append_to (activeSession st)
                (newMessage (Str (ascii ''Image uploaded'')) MsgImage User (Str (image_url env)) (image_clock env))
                (sessions st)))"
  by (auto simp: handleFileUpload_def Let_def sessions_addMessage
           split: fetch_result.splits body.splits option.splits)

lemma requests_handleFileUpload:
  "requests (chat_new_effects st (handleFileUpload env st)) =
     (case chosen_file env of
        None \<Rightarrow> []
      | Some (file, file_name) \<Rightarrow>
          [(chat_chat_url, [(''session_id'', Text (Str (activeSession st))), (''file'', File file file_name)])])"
  by (auto simp: handleFileUpload_def Let_def chat_new_effects_def
           split: fetch_result.splits body.splits option.splits)

lemma state_handleFileUpload:
  "activeSession (handleFileUpload env st) = activeSession st"
  "isRecording (handleFileUpload env st) = isRecording st"
  "chat_mediaRecorderRef (handleFileUpload env st) = chat_mediaRecorderRef st"
  "\<exists>es. chat_effects (handleFileUpload env st) = chat_effects st @ es \<and> RecorderStop \<notin> set es"
  by (auto simp: handleFileUpload_def Let_def split: fetch_result.splits body.splits option.splits)

lemma sessions_chat_onstop:
  "sessions (chat_onstop r env st) =
     (case reply_json (voice_transcribe_reply env) of
        Some d \<Rightarrow>
          if truthy (data_text d)
          then (case reply_json (voice_chat_reply env) of
                  Some c \<Rightarrow> append_to (captured_activeSession r)
                              (newMessage (data_response c) MsgText Bot Undefined (reply_clock env))
                | None \<Rightarrow> (\<lambda>ss. ss))
                 (append_to (captured_activeSession r)
                    (newMessage (data_text d) MsgText User Undefined (text_clock env))
                    (append_to (captured_activeSession r)
                       (newMessage (Str (ascii ''Voice message'')) MsgVoice User (Str (voice_url env)) (voice_clock env))
                       (sessions st)))
          else append_to (captured_activeSession r)
                 (newMessage (Str (ascii ''Voice message'')) MsgVoice User (Str (voice_url env)) (voice_clock env))
                 (sessions st)
      | None \<Rightarrow>
          append_to (captured_activeSession r)
            (newMessage (Str (ascii ''Voice message'')) MsgVoice User (Str (voice_url env)) (voice_clock env))
            (sessions st))"
  by (auto simp: chat_onstop_def Let_def sessions_addMessage
           split: fetch_result.splits body.splits)

lemma requests_chat_onstop:
  "requests (chat_new_effects st (chat_onstop r env st)) =
     (chat_transcribe_url,
      [(''file'', File \<lparr>parts = chunks r, blob_type = []\<rparr> (ascii ''voice.webm''))]) #
     (case reply_json (voice_transcribe_reply env) of
        Some d \<Rightarrow>
          if truthy (data_text d)
          then [(chat_chat_url, [(''session_id'', Text (Str (captured_activeSession r))),
                                 (''message'', Text (data_text d))])]
          else []
      | None \<Rightarrow> [])"
  by (auto simp: chat_onstop_def Let_def chat_new_effects_def
           split: fetch_result.splits body.splits)

lemma toasts_chat_onstop:
  "toasts (chat_new_effects st (chat_onstop r env st)) =
     (case voice_transcribe_reply env of
        NetworkError msg \<Rightarrow> [error_toast (ascii ''Voice upload failed'')]
      | Response status (BodyError msg) \<Rightarrow> [error_toast (ascii ''Voice upload failed'')]
      | Response status (BodyJson d) \<Rightarrow>
          if ok status \<and> truthy (data_text d)
          then (case voice_chat_reply env of
                  NetworkError msg \<Rightarrow> [error_toast (ascii ''Voice upload failed'')]
                | Response chat_status (BodyError msg) \<Rightarrow> [error_toast (ascii ''Voice upload failed'')]
                | Response chat_status (BodyJson c) \<Rightarrow> [])
          else [error_toast (ascii ''Transcription failed'')])"
  by (auto simp: chat_onstop_def Let_def chat_new_effects_def
           split: fetch_result.splits body.splits)

lemma state_chat_onstop:
  "activeSession (chat_onstop r env st) = activeSession st"
  "isRecording (chat_onstop r env st) = isRecording st"
  "chat_mediaRecorderRef (chat_onstop r env st) = chat_mediaRecorderRef st"
  "inputMessage (chat_onstop r env st) = inputMessage st"
  "\<exists>es. chat_effects (chat_onstop r env st) = chat_effects st @ es \<and> RecorderStop \<notin> set es"
  by (auto simp: chat_onstop_def Let_def split: fetch_result.splits body.splits)

lemma sessions_extend_handlers:
  "sessions_extend (sessions st) (sessions (handleSendMessage env st))"
  "sessions_extend (sessions st) (sessions (handleFileUpload env' st))"
  "sessions_extend (sessions st) (sessions (chat_onstop r env'' st))"
  by (auto simp: sessions_handleSendMessage sessions_handleFileUpload sessions_chat_onstop
           split: option.splits
           intro!: sessions_extend_append_to_trans sessions_extend_append_to)

lemma ids_handlers [simp]:
  "map session_id (sessions (handleSendMessage env st)) = map session_id (sessions st)"
  "map session_id (sessions (handleFileUpload env' st)) = map session_id (sessions st)"
  "map session_id (sessions (chat_onstop r env'' st)) = map session_id (sessions st)"
  by (auto simp: sessions_handleSendMessage sessions_handleFileUpload sessions_chat_onstop
           split: option.splits)

lemma state_startVoiceRecording:
  "sessions (startVoiceRecording m st) = sessions st"
  "activeSession (startVoiceRecording m st) = activeSession st"
  "inputMessage (startVoiceRecording m st) = inputMessage st"
  "isRecording (startVoiceRecording m st) = (case m of Granted \<Rightarrow> True | Denied \<Rightarrow> isRecording st)"
  "chat_mediaRecorderRef (startVoiceRecording m st) =
     (case m of Granted \<Rightarrow> Some \<lparr>chat_rstate = Recording, chunks = [], captured_activeSession = activeSession st\<rparr>
      | Denied \<Rightarrow> chat_mediaRecorderRef st)"
  "chat_effects (startVoiceRecording m st) =
     chat_effects st @ GetUserMedia #
       (case m of Granted \<Rightarrow> [RecorderStart]
        | Denied \<Rightarrow> [ToastShown (error_toast (ascii ''Could not access microphone''))])"
  by (simp_all add: startVoiceRecording_def Let_def split: mic_result.splits)

lemma state_stopVoiceRecording:
  "sessions (stopVoiceRecording st) = sessions st"
  "activeSession (stopVoiceRecording st) = activeSession st"
  "inputMessage (stopVoiceRecording st) = inputMessage st"
  "isRecording (stopVoiceRecording st) = (isRecording st \<and> chat_mediaRecorderRef st = None)"
  "chat_mediaRecorderRef (stopVoiceRecording st) =
     (case chat_mediaRecorderRef st of None \<Rightarrow> None
      | Some r \<Rightarrow> Some (if isRecording st then r\<lparr>chat_rstate := recorder_stop (chat_rstate r)\<rparr> else r))"
  "chat_effects (stopVoiceRecording st) =
     chat_effects st @ (if chat_mediaRecorderRef st \<noteq> None \<and> isRecording st then [RecorderStop] else [])"
  by (auto simp: stopVoiceRecording_def split: option.splits)

lemma state_createNewSession:
  "sessions (createNewSession clk st) =
     sessions st @ [\<lparr>session_id = toString (fst clk),
                      session_name = ascii ''Chat '' @ toString (length (sessions st) + 1),
                      messages = [], createdAt = snd clk\<rparr>]"
  "activeSession (createNewSession clk st) = toString (fst clk)"
  "inputMessage (createNewSession clk st) = inputMessage st"
  "isRecording (createNewSession clk st) = isRecording st"
  "chat_mediaRecorderRef (createNewSession clk st) = chat_mediaRecorderRef st"
  "chat_effects (createNewSession clk st) = chat_effects st"
  by (simp_all add: createNewSession_def Let_def)

lemma chat_dispatch_cases:
  "chat_dispatch env st =
     (case chat_mediaRecorderRef st of
        None \<Rightarrow> st
      | Some r \<Rightarrow>
          if chat_rstate r = StopQueued
          then chat_onstop (r\<lparr>chat_rstate := Inactive, chunks := chunks r @ voice_data env\<rparr>) env
                 (st\<lparr>chat_mediaRecorderRef :=
                      Some (r\<lparr>chat_rstate := Inactive, chunks := chunks r @ voice_data env\<rparr>)\<rparr>)
          else st)"
  by (simp add: chat_dispatch_def Let_def split: option.splits)

lemma sessions_extend_chat_dispatch:
  "sessions_extend (sessions st) (sessions (chat_dispatch env st))"
  using sessions_extend_handlers(3)
    [of "st\<lparr>chat_mediaRecorderRef := x\<rparr>" for x]
  by (auto simp: chat_dispatch_cases split: option.splits)

lemma sessions_extend_step: "sessions_extend (sessions st) (sessions (chat_step st ev))"
proof (cases ev)
  case (MicClick m env)
  have "sessions_extend (sessions st)
          (sessions (if isRecording st then stopVoiceRecording st else startVoiceRecording m st))"
    by (simp add: state_stopVoiceRecording state_startVoiceRecording)
  then show ?thesis
    unfolding MicClick chat_step.simps
    using sessions_extend_chat_dispatch sessions_extend_trans by blast
qed (simp_all add: chat_step.simps sessions_extend_handlers state_createNewSession sessions_extend_append)

lemma sessions_extend_run: "sessions_extend (sessions st) (sessions (foldl chat_step st evs))"
proof (induction evs arbitrary: st)
  case Nil
  show ?case by simp
next
  case (Cons ev evs)
  show ?case
    using sessions_extend_step [of st ev] Cons [of "chat_step st ev"]
    by (auto intro: sessions_extend_trans)
qed

lemma chat_urls_distinct [simp]:
  "chat_transcribe_url \<noteq> chat_chat_url" "chat_chat_url \<noteq> chat_transcribe_url"
  by (simp_all add: chat_transcribe_url_def chat_chat_url_def)

lemma requests_onstop:
  "requests (new_effects st (onstop r reply chat st)) =
     (voice_transcribe_url,
      [(''file'', File \<lparr>parts = audioChunksRef st, blob_type = ascii ''audio/webm''\<rparr>
                    (ascii ''recording.webm''))]) #
     (case reply_json reply of
        Some d \<Rightarrow>
          [(voice_chat_url,
            (if truthy (captured_sessionId r) then [(''session_id'', Text (captured_sessionId r))] else [])
            @ [(''message'', Text (data_text d))])]
      | None \<Rightarrow> [])"
  by (simp add: new_effects_def effects_onstop split: option.splits)

text \<open>
  C2. In both components the stop handler of a recorder issues the transcription request
  first. A chat request follows only when that request resolved with a status from 200 to
  299 and a readable body (in the chat panel, only when the text is non-empty as well), and
  its \<^verbatim>\<open>message\<close> is the \<^verbatim>\<open>text\<close> field of that reply; when the
  transcription request fails or answers outside 200 to 299, the transcription request is
  the only request.
\<close>

theorem chat_follows_successful_transcription:
  "requests (new_effects st (onstop r reply chat st)) =
     (voice_transcribe_url,
      [(''file'', File \<lparr>parts = audioChunksRef st, blob_type = ascii ''audio/webm''\<rparr>
                    (ascii ''recording.webm''))]) #
     (case reply_json reply of
        Some d \<Rightarrow>
          [(voice_chat_url,
            (if truthy (captured_sessionId r) then [(''session_id'', Text (captured_sessionId r))] else [])
            @ [(''message'', Text (data_text d))])]
      | None \<Rightarrow> [])
   \<and> requests (chat_new_effects cst (chat_onstop cr env cst)) =
     (chat_transcribe_url,
      [(''file'', File \<lparr>parts = chunks cr, blob_type = []\<rparr> (ascii ''voice.webm''))]) #
     (case reply_json (voice_transcribe_reply env) of
        Some d \<Rightarrow>
          if truthy (data_text d)
          then [(chat_chat_url, [(''session_id'', Text (Str (captured_activeSession cr))),
                                 (''message'', Text (data_text d))])]
          else []
      | None \<Rightarrow> [])"
  by (simp only: requests_onstop requests_chat_onstop)

theorem chat_follows_successful_transcription_witness:
  "let heard = \<lparr>data_text = Str (ascii ''hi''), data_response = Undefined,
                  data_session_id = Undefined, data_detail = Undefined\<rparr>;
       r = \<lparr>rstate = StopQueued, captured_sessionId = Null\<rparr>;
       cr = \<lparr>chat_rstate = Inactive, chunks = [[1]], captured_activeSession = ascii ''1''\<rparr>;
       env = \<lparr>voice_data = [], voice_url = ascii ''blob:1'', voice_clock = (1, 1),
               voice_transcribe_reply = Response 200 (BodyJson heard), text_clock = (2, 2),
               voice_chat_reply = NetworkError [], reply_clock = (3, 3)\<rparr>;
       failing = env\<lparr>voice_transcribe_reply := Response 500 (BodyJson heard)\<rparr>
   in map fst (requests (new_effects voice_init (onstop r (Response 200 (BodyJson heard)) (NetworkError []) voice_init)))
        = [voice_transcribe_url, voice_chat_url]
      \<and> map fst (requests (new_effects voice_init (onstop r (Response 404 (BodyJson heard)) (NetworkError []) voice_init)))
        = [voice_transcribe_url]
      \<and> map fst (requests (new_effects voice_init (onstop r (NetworkError []) (NetworkError []) voice_init)))
        = [voice_transcribe_url]
      \<and> requests (chat_new_effects (chat_init 0) (chat_onstop cr env (chat_init 0))) =
          [(chat_transcribe_url,
            [(''file'', File \<lparr>parts = [[1]], blob_type = []\<rparr> (ascii ''voice.webm''))]),
           (chat_chat_url, [(''session_id'', Text (Str (ascii ''1''))), (''message'', Text (Str (ascii ''hi'')))])]
      \<and> map fst (requests (chat_new_effects (chat_init 0) (chat_onstop cr failing (chat_init 0))))
        = [chat_transcribe_url]"
proof -
  define heard where "heard = \<lparr>data_text = Str (ascii ''hi''), data_response = Undefined,
                  data_session_id = Undefined, data_detail = Undefined\<rparr>"
  define r where "r = \<lparr>rstate = StopQueued, captured_sessionId = Null\<rparr>"
  define cr where "cr = \<lparr>chat_rstate = Inactive, chunks = [[1]], captured_activeSession = ascii ''1''\<rparr>"
  define env where "env = \<lparr>voice_data = [], voice_url = ascii ''blob:1'', voice_clock = (1, 1),
               voice_transcribe_reply = Response 200 (BodyJson heard), text_clock = (2, 2),
               voice_chat_reply = NetworkError [], reply_clock = (3, 3)\<rparr>"
  define failing where "failing = env\<lparr>voice_transcribe_reply := Response 500 (BodyJson heard)\<rparr>"
  note defs = heard_def r_def cr_def env_def failing_def
  have "map fst (requests (new_effects voice_init (onstop r (Response 200 (BodyJson heard)) (NetworkError []) voice_init)))
        = [voice_transcribe_url, voice_chat_url]"
    using chat_follows_successful_transcription
            [of voice_init r "Response 200 (BodyJson heard)" "NetworkError []" "chat_init 0" cr env]
    by (simp add: ok_def)
  moreover
  have "map fst (requests (new_effects voice_init (onstop r (Response 404 (BodyJson heard)) (NetworkError []) voice_init)))
        = [voice_transcribe_url]"
    using chat_follows_successful_transcription
            [of voice_init r "Response 404 (BodyJson heard)" "NetworkError []" "chat_init 0" cr env]
    by (simp add: ok_def)
  moreover
  have "map fst (requests (new_effects voice_init (onstop r (NetworkError []) (NetworkError []) voice_init)))
        = [voice_transcribe_url]"
    using chat_follows_successful_transcription
            [of voice_init r "NetworkError []" "NetworkError []" "chat_init 0" cr env]
    by simp
  moreover
  have "requests (chat_new_effects (chat_init 0) (chat_onstop cr env (chat_init 0))) =
          [(chat_transcribe_url,
            [(''file'', File \<lparr>parts = [[1]], blob_type = []\<rparr> (ascii ''voice.webm''))]),
           (chat_chat_url, [(''session_id'', Text (Str (ascii ''1''))), (''message'', Text (Str (ascii ''hi'')))])]"
    using chat_follows_successful_transcription
            [of voice_init r "NetworkError []" "NetworkError []" "chat_init 0" cr env]
    by (simp add: ok_def cr_def env_def heard_def)
  moreover
  have "map fst (requests (chat_new_effects (chat_init 0) (chat_onstop cr failing (chat_init 0))))
        = [chat_transcribe_url]"
    using chat_follows_successful_transcription
            [of voice_init r "NetworkError []" "NetworkError []" "chat_init 0" cr failing]
    by (simp add: ok_def failing_def env_def)
  ultimately show ?thesis
    unfolding Let_def defs by blast
qed

text \<open>
  C3, at the input where the code departs from it. The recorder of the chat panel stops,
  the transcription succeeds, and the chat service answers 500 with a JSON body: the chat
  request was issued, and no notification is shown. (The same answer to a typed message or
  to an uploaded image is notified by \<^verbatim>\<open>handleSendMessage\<close> and
  \<^verbatim>\<open>handleFileUpload\<close>.)
\<close>

theorem voice_chat_failure_not_notified:
  "let heard = \<lparr>data_text = Str (ascii ''hi''), data_response = Undefined,
                  data_session_id = Undefined, data_detail = Undefined\<rparr>;
       refused = \<lparr>data_text = Undefined, data_response = Undefined,
                  data_session_id = Undefined, data_detail = Str (ascii ''Internal Server Error'')\<rparr>;
       cr = \<lparr>chat_rstate = Inactive, chunks = [[1]], captured_activeSession = ascii ''1''\<rparr>;
       env = \<lparr>voice_data = [], voice_url = ascii ''blob:1'', voice_clock = (1, 1),
               voice_transcribe_reply = Response 200 (BodyJson heard), text_clock = (2, 2),
               voice_chat_reply = Response 500 (BodyJson refused), reply_clock = (3, 3)\<rparr>;
       st = chat_onstop cr env (chat_init 0)
   in map fst (requests (chat_effects st)) = [chat_transcribe_url, chat_chat_url]
      \<and> \<not> ok 500
      \<and> toasts (chat_effects st) = []
      \<and> map (map content \<circ> messages) (sessions st) = [[Str (ascii ''Voice message''), Str (ascii ''hi'')]]"
proof -
  have ne: "chat_new_effects (chat_init 0) st = chat_effects st" for st
    by (simp add: chat_new_effects_def chat_init_def)
  show ?thesis
    using requests_chat_onstop [of "chat_init 0"] toasts_chat_onstop [of "chat_init 0"]
    unfolding ne Let_def
    by (simp add: ok_def sessions_chat_onstop)
       (simp add: chat_init_def append_to_def newMessage_def)
qed

section \<open>ChatInterface: results on the handlers\<close>

lemma trim_blank: "list_all is_white_space s \<Longrightarrow> trim s = []"
proof -
  assume "list_all is_white_space s"
  then have "dropWhile is_white_space s = []"
    by (induction s) simp_all
  then show ?thesis
    unfolding trim_def by (simp only: rev.simps dropWhile.simps)
qed

text \<open>
  C10. When the input is empty or consists of white space only, \<^verbatim>\<open>handleSendMessage\<close>
  returns the state it was given: no message is added, no request is issued, and the
  sessions, the active session and the input field are what they were.
\<close>

theorem blank_input_is_not_sent:
  "list_all is_white_space (inputMessage st) \<Longrightarrow>
     handleSendMessage env st = st
     \<and> chat_step st (SendMessage env) = st
     \<and> chat_new_effects st (handleSendMessage env st) = []"
  by (simp add: handleSendMessage_blank trim_blank chat_step.simps chat_new_effects_def)

theorem blank_input_is_not_sent_witness:
  "let st = (chat_init 0)\<lparr>inputMessage := [0x0020, 0x0009, 0x3000]\<rparr>;
       env = \<lparr>user_clock = (1, 1), send_reply = NetworkError [], bot_clock = (2, 2)\<rparr>
   in list_all is_white_space (inputMessage st)
      \<and> handleSendMessage env st = st
      \<and> chat_step st (SendMessage env) = st
      \<and> chat_new_effects st (handleSendMessage env st) = []
      \<and> chat_step ((chat_init 0)\<lparr>inputMessage := []\<rparr>) (SendMessage env) = (chat_init 0)\<lparr>inputMessage := []\<rparr>"
proof -
  define st where "st = (chat_init 0)\<lparr>inputMessage := [0x0020, 0x0009, 0x3000]\<rparr>"
  define env where "env = \<lparr>user_clock = (1, 1), send_reply = NetworkError [], bot_clock = (2, 2)\<rparr>"
  have blank: "list_all is_white_space (inputMessage st)"
    by (simp add: st_def is_white_space_def)
  have empty: "list_all is_white_space (inputMessage ((chat_init 0)\<lparr>inputMessage := []\<rparr>))"
    by simp
  from blank_input_is_not_sent [OF blank, of env] blank_input_is_not_sent [OF empty, of env] blank
  have "list_all is_white_space (inputMessage st)
      \<and> handleSendMessage env st = st
      \<and> chat_step st (SendMessage env) = st
      \<and> chat_new_effects st (handleSendMessage env st) = []
      \<and> chat_step ((chat_init 0)\<lparr>inputMessage := []\<rparr>) (SendMessage env) = (chat_init 0)\<lparr>inputMessage := []\<rparr>"
    by blast
  then show ?thesis
    unfolding Let_def st_def env_def .
qed

lemma transcript_onstop:
  "reply_json reply = Some d \<Longrightarrow> transcript (onstop r reply chat st) = data_text d"
  by (simp add: state_onstop)

lemma messages_chat_onstop:
  assumes "reply_json (voice_transcribe_reply env) = Some d" "truthy (data_text d)"
    and "i < length (sessions st)" "session_id (sessions st ! i) = captured_activeSession r"
  shows "\<exists>rest. messages (sessions (chat_onstop r env st) ! i) =
           messages (sessions st ! i) @
           [newMessage (Str (ascii ''Voice message'')) MsgVoice User (Str (voice_url env)) (voice_clock env),
            newMessage (data_text d) MsgText User Undefined (text_clock env)] @ rest"
  using assms
  by (cases "reply_json (voice_chat_reply env)") (simp_all add: sessions_chat_onstop nth_append_to)

text \<open>
  C6, as stated, fails in the chat panel. The transcription service answers 200 with the
  text \<^verbatim>\<open>""\<close> (a silent recording): the reply is a success, but the text is not
  appended as a user message; the panel shows the notification of a failed transcription.
\<close>

theorem empty_transcript_counterexample:
  "let silent = \<lparr>data_text = Str [], data_response = Undefined,
                  data_session_id = Undefined, data_detail = Undefined\<rparr>;
       cr = \<lparr>chat_rstate = Inactive, chunks = [[1]], captured_activeSession = ascii ''1''\<rparr>;
       env = \<lparr>voice_data = [], voice_url = ascii ''blob:1'', voice_clock = (1, 1),
               voice_transcribe_reply = Response 200 (BodyJson silent), text_clock = (2, 2),
               voice_chat_reply = NetworkError [], reply_clock = (3, 3)\<rparr>;
       st = chat_onstop cr env (chat_init 0)
   in reply_json (voice_transcribe_reply env) = Some silent
      \<and> map (map content \<circ> messages) (sessions st) = [[Str (ascii ''Voice message'')]]
      \<and> toasts (chat_effects st) = [error_toast (ascii ''Transcription failed'')]"
proof -
  have ne: "chat_new_effects (chat_init 0) st = chat_effects st" for st
    by (simp add: chat_new_effects_def chat_init_def)
  show ?thesis
    using toasts_chat_onstop [of "chat_init 0"]
    unfolding ne Let_def
    by (simp add: ok_def sessions_chat_onstop)
       (simp add: chat_init_def append_to_def newMessage_def)
qed

text \<open>
  C6 (amended). The transcription request of either stop handler is a form with exactly one
  part, the recorded audio as a file: on the voice screen the blob of type
  \<^verbatim>\<open>audio/webm\<close> under the name \<^verbatim>\<open>recording.webm\<close>, in the chat panel a file named
  \<^verbatim>\<open>voice.webm\<close> with the same content and the empty type. On a successful reply the
  voice screen stores the
  \<^verbatim>\<open>text\<close> field as the transcript. On a successful reply whose text is a non-empty
  string the chat panel appends it, as a text message of the user, after the voice message
  in the session the recording was started in; a successful reply whose text is empty or
  missing is notified as a failed transcription and appends nothing but the voice message.
\<close>

theorem transcription_form_and_transcript:
  "hd (requests (new_effects st (onstop r reply chat st))) =
     (voice_transcribe_url,
      [(''file'', File \<lparr>parts = audioChunksRef st, blob_type = ascii ''audio/webm''\<rparr>
                    (ascii ''recording.webm''))])
   \<and> (\<forall>d. reply_json reply = Some d \<longrightarrow> transcript (onstop r reply chat st) = data_text d)
   \<and> hd (requests (chat_new_effects cst (chat_onstop cr env cst))) =
     (chat_transcribe_url,
      [(''file'', File \<lparr>parts = chunks cr, blob_type = []\<rparr> (ascii ''voice.webm''))])
   \<and> (\<forall>d i. reply_json (voice_transcribe_reply env) = Some d \<and> truthy (data_text d)
          \<and> i < length (sessions cst) \<and> session_id (sessions cst ! i) = captured_activeSession cr
        \<longrightarrow> (\<exists>rest. messages (sessions (chat_onstop cr env cst) ! i) =
               messages (sessions cst ! i) @
               [newMessage (Str (ascii ''Voice message'')) MsgVoice User (Str (voice_url env)) (voice_clock env),
                newMessage (data_text d) MsgText User Undefined (text_clock env)] @ rest))
   \<and> (\<forall>d. reply_json (voice_transcribe_reply env) = Some d \<and> \<not> truthy (data_text d)
        \<longrightarrow> sessions (chat_onstop cr env cst) =
              append_to (captured_activeSession cr)
                (newMessage (Str (ascii ''Voice message'')) MsgVoice User (Str (voice_url env)) (voice_clock env))
                (sessions cst)
            \<and> toasts (chat_new_effects cst (chat_onstop cr env cst)) =
                [error_toast (ascii ''Transcription failed'')])"
proof (intro conjI allI impI)
  show "hd (requests (new_effects st (onstop r reply chat st))) =
     (voice_transcribe_url,
      [(''file'', File \<lparr>parts = audioChunksRef st, blob_type = ascii ''audio/webm''\<rparr>
                    (ascii ''recording.webm''))])"
    by (simp add: requests_onstop)
  show "hd (requests (chat_new_effects cst (chat_onstop cr env cst))) =
     (chat_transcribe_url,
      [(''file'', File \<lparr>parts = chunks cr, blob_type = []\<rparr> (ascii ''voice.webm''))])"
    by (simp add: requests_chat_onstop)
  show "transcript (onstop r reply chat st) = data_text d" if "reply_json reply = Some d" for d
    using that by (rule transcript_onstop)
  show "\<exists>rest. messages (sessions (chat_onstop cr env cst) ! i) =
               messages (sessions cst ! i) @
               [newMessage (Str (ascii ''Voice message'')) MsgVoice User (Str (voice_url env)) (voice_clock env),
                newMessage (data_text d) MsgText User Undefined (text_clock env)] @ rest"
    if "reply_json (voice_transcribe_reply env) = Some d \<and> truthy (data_text d)
          \<and> i < length (sessions cst) \<and> session_id (sessions cst ! i) = captured_activeSession cr"
    for d i
    using that messages_chat_onstop by blast
  show "sessions (chat_onstop cr env cst) =
              append_to (captured_activeSession cr)
                (newMessage (Str (ascii ''Voice message'')) MsgVoice User (Str (voice_url env)) (voice_clock env))
                (sessions cst)"
    if "reply_json (voice_transcribe_reply env) = Some d \<and> \<not> truthy (data_text d)" for d
    using that by (simp add: sessions_chat_onstop)
  show "toasts (chat_new_effects cst (chat_onstop cr env cst)) =
                [error_toast (ascii ''Transcription failed'')]"
    if "reply_json (voice_transcribe_reply env) = Some d \<and> \<not> truthy (data_text d)" for d
    using that
    by (cases "voice_transcribe_reply env" rule: reply_json.cases)
       (simp_all add: toasts_chat_onstop split: if_splits)
qed

theorem transcription_form_and_transcript_witness:
  "let heard = \<lparr>data_text = Str (ascii ''hi''), data_response = Undefined,
                  data_session_id = Undefined, data_detail = Undefined\<rparr>;
       silent = heard\<lparr>data_text := Str []\<rparr>;
       r = \<lparr>rstate = StopQueued, captured_sessionId = Null\<rparr>;
       cr = \<lparr>chat_rstate = Inactive, chunks = [[1]], captured_activeSession = ascii ''1''\<rparr>;
       env = \<lparr>voice_data = [], voice_url = ascii ''blob:1'', voice_clock = (1, 1),
               voice_transcribe_reply = Response 200 (BodyJson heard), text_clock = (2, 2),
               voice_chat_reply = NetworkError [], reply_clock = (3, 3)\<rparr>;
       quiet = env\<lparr>voice_transcribe_reply := Response 200 (BodyJson silent)\<rparr>
   in reply_json (Response 200 (BodyJson heard)) = Some heard
      \<and> transcript (onstop r (Response 200 (BodyJson heard)) (NetworkError []) voice_init) = Str (ascii ''hi'')
      \<and> truthy (data_text heard)
      \<and> session_id (sessions (chat_init 0) ! 0) = captured_activeSession cr
      \<and> take 2 (map content (messages (sessions (chat_onstop cr env (chat_init 0)) ! 0)))
           = [Str (ascii ''Voice message''), Str (ascii ''hi'')]
      \<and> \<not> truthy (data_text silent)
      \<and> toasts (chat_new_effects (chat_init 0) (chat_onstop cr quiet (chat_init 0)))
           = [error_toast (ascii ''Transcription failed'')]"
proof -
  define heard where "heard = \<lparr>data_text = Str (ascii ''hi''), data_response = Undefined,
                  data_session_id = Undefined, data_detail = Undefined\<rparr>"
  define silent where "silent = heard\<lparr>data_text := Str []\<rparr>"
  define r where "r = \<lparr>rstate = StopQueued, captured_sessionId = Null\<rparr>"
  define cr where "cr = \<lparr>chat_rstate = Inactive, chunks = [[1]], captured_activeSession = ascii ''1''\<rparr>"
  define env where "env = \<lparr>voice_data = [], voice_url = ascii ''blob:1'', voice_clock = (1, 1),
               voice_transcribe_reply = Response 200 (BodyJson heard), text_clock = (2, 2),
               voice_chat_reply = NetworkError [], reply_clock = (3, 3)\<rparr>"
  define quiet where "quiet = env\<lparr>voice_transcribe_reply := Response 200 (BodyJson silent)\<rparr>"
  note defs = heard_def silent_def r_def cr_def env_def quiet_def
  have h1: "reply_json (Response 200 (BodyJson heard)) = Some heard"
    by (simp add: ok_def)
  have h2: "reply_json (voice_transcribe_reply env) = Some heard \<and> truthy (data_text heard)
      \<and> 0 < length (sessions (chat_init 0))
      \<and> session_id (sessions (chat_init 0) ! 0) = captured_activeSession cr"
    by (simp add: ok_def env_def heard_def cr_def chat_init_def)
  have h3: "reply_json (voice_transcribe_reply quiet) = Some silent \<and> \<not> truthy (data_text silent)"
    by (simp add: ok_def quiet_def silent_def)
  note loud = transcription_form_and_transcript
                [of voice_init r "Response 200 (BodyJson heard)" "NetworkError []" "chat_init 0" cr env]
  note hush = transcription_form_and_transcript
                [of voice_init r "Response 200 (BodyJson heard)" "NetworkError []" "chat_init 0" cr quiet]
  from loud h1 have a: "transcript (onstop r (Response 200 (BodyJson heard)) (NetworkError []) voice_init) = data_text heard"
    by blast
  from loud h2 obtain rest where
    "messages (sessions (chat_onstop cr env (chat_init 0)) ! 0) =
       messages (sessions (chat_init 0) ! 0) @
       [newMessage (Str (ascii ''Voice message'')) MsgVoice User (Str (voice_url env)) (voice_clock env),
        newMessage (data_text heard) MsgText User Undefined (text_clock env)] @ rest"
    by blast
  then have b: "take 2 (map content (messages (sessions (chat_onstop cr env (chat_init 0)) ! 0)))
           = [Str (ascii ''Voice message''), data_text heard]"
    by (simp add: chat_init_def newMessage_def)
  from hush h3 have c: "toasts (chat_new_effects (chat_init 0) (chat_onstop cr quiet (chat_init 0)))
           = [error_toast (ascii ''Transcription failed'')]"
    by blast
  from h1 a h2 b h3 c
  have "reply_json (Response 200 (BodyJson heard)) = Some heard
      \<and> transcript (onstop r (Response 200 (BodyJson heard)) (NetworkError []) voice_init) = Str (ascii ''hi'')
      \<and> truthy (data_text heard)
      \<and> session_id (sessions (chat_init 0) ! 0) = captured_activeSession cr
      \<and> take 2 (map content (messages (sessions (chat_onstop cr env (chat_init 0)) ! 0)))
           = [Str (ascii ''Voice message''), Str (ascii ''hi'')]
      \<and> \<not> truthy (data_text silent)
      \<and> toasts (chat_new_effects (chat_init 0) (chat_onstop cr quiet (chat_init 0)))
           = [error_toast (ascii ''Transcription failed'')]"
    by (simp add: heard_def)
  then show ?thesis
    unfolding Let_def defs .
qed

section \<open>ChatInterface: the recorder and the sessions over runs\<close>

lemma transcriptions_append [simp]: "transcriptions (xs @ ys) = transcriptions xs @ transcriptions ys"
  by (simp add: transcriptions_def)

lemma stops_append [simp]: "stops (xs @ ys) = stops xs @ stops ys"
  by (simp add: stops_def)

lemma transcriptions_Nil [simp]: "transcriptions [] = []"
  by (simp add: transcriptions_def)

lemma stops_Nil [simp]: "stops [] = []"
  by (simp add: stops_def)

lemma url_cross_distinct [simp]:
  "chat_chat_url \<noteq> voice_transcribe_url" "voice_chat_url \<noteq> chat_transcribe_url"
  by (simp_all add: chat_chat_url_def voice_transcribe_url_def voice_chat_url_def chat_transcribe_url_def)

subsection \<open>The chat panel: what each event adds\<close>

lemma chat_new_effects_append:
  "chat_effects st' = chat_effects st @ es \<Longrightarrow> chat_new_effects st st' = es"
  by (simp add: chat_new_effects_def)

lemma chat_new_effects_same [simp]: "chat_new_effects st st = []"
  by (simp add: chat_new_effects_def)

lemma handler_effects_split:
  "chat_effects (handleSendMessage env st) = chat_effects st @ chat_new_effects st (handleSendMessage env st)"
  "chat_effects (handleFileUpload env' st) = chat_effects st @ chat_new_effects st (handleFileUpload env' st)"
  "chat_effects (chat_onstop r env'' st) = chat_effects st @ chat_new_effects st (chat_onstop r env'' st)"
  using state_handleSendMessage(4) [of env st] state_handleFileUpload(4) [of env' st]
    state_chat_onstop(5) [of r env'' st]
  by (auto simp: chat_new_effects_def)

lemma handler_stops:
  "stops (chat_new_effects st (handleSendMessage env st)) = []"
  "stops (chat_new_effects st (handleFileUpload env' st)) = []"
  "stops (chat_new_effects st (chat_onstop r env'' st)) = []"
  using state_handleSendMessage(4) [of env st] state_handleFileUpload(4) [of env' st]
    state_chat_onstop(5) [of r env'' st]
  by (auto simp: stops_def filter_empty_conv chat_new_effects_def)

lemma handler_transcriptions:
  "transcriptions (chat_new_effects st (handleSendMessage env st)) = []"
  "transcriptions (chat_new_effects st (handleFileUpload env' st)) = []"
  "transcriptions (chat_new_effects st (chat_onstop r env'' st)) =
     [(chat_transcribe_url,
       [(''file'', File \<lparr>parts = chunks r, blob_type = []\<rparr> (ascii ''voice.webm''))])]"
  by (auto simp: transcriptions_def requests_handleSendMessage requests_handleFileUpload
        requests_chat_onstop split: option.splits)

lemma mic_click_idle:
  assumes "chat_inv st" "\<not> isRecording st"
  shows "chat_step st (MicClick m env) = startVoiceRecording m st"
  using assms
  by (cases m)
     (auto simp: chat_step.simps chat_inv_def chat_dispatch_cases state_startVoiceRecording
           split: option.splits)

lemma mic_click_recording:
  assumes "chat_inv st" "isRecording st"
  shows "\<exists>r. chat_mediaRecorderRef st = Some r \<and> chat_rstate r = Recording
     \<and> captured_activeSession r \<in> set (map session_id (sessions st))
     \<and> chat_step st (MicClick m env) =
         chat_onstop (r\<lparr>chat_rstate := Inactive, chunks := chunks r @ voice_data env\<rparr>) env
           ((stopVoiceRecording st)\<lparr>chat_mediaRecorderRef :=
               Some (r\<lparr>chat_rstate := Inactive, chunks := chunks r @ voice_data env\<rparr>)\<rparr>)
     \<and> chat_effects (stopVoiceRecording st) = chat_effects st @ [RecorderStop]"
proof -
  from assms obtain r where r: "chat_mediaRecorderRef st = Some r" "chat_rstate r = Recording"
      "captured_activeSession r \<in> set (map session_id (sessions st))"
    by (auto simp: chat_inv_def split: option.splits)
  then show ?thesis
    using assms(2)
    by (simp add: chat_step.simps chat_dispatch_cases state_stopVoiceRecording)
qed

lemma mic_click_recording_effects:
  assumes "chat_inv st" "isRecording st"
  shows "\<exists>r X. chat_mediaRecorderRef st = Some r
     \<and> chat_new_effects st (chat_step st (MicClick m env)) =
         RecorderStop #
         chat_new_effects X
           (chat_onstop (r\<lparr>chat_rstate := Inactive, chunks := chunks r @ voice_data env\<rparr>) env X)"
proof -
  from mic_click_recording [OF assms, of m env] obtain r where
    r: "chat_mediaRecorderRef st = Some r"
    and step: "chat_step st (MicClick m env) =
       chat_onstop (r\<lparr>chat_rstate := Inactive, chunks := chunks r @ voice_data env\<rparr>) env
         ((stopVoiceRecording st)\<lparr>chat_mediaRecorderRef :=
             Some (r\<lparr>chat_rstate := Inactive, chunks := chunks r @ voice_data env\<rparr>)\<rparr>)"
    and stop: "chat_effects (stopVoiceRecording st) = chat_effects st @ [RecorderStop]"
    by blast
  let ?r = "r\<lparr>chat_rstate := Inactive, chunks := chunks r @ voice_data env\<rparr>"
  let ?X = "(stopVoiceRecording st)\<lparr>chat_mediaRecorderRef := Some ?r\<rparr>"
  have X: "chat_effects ?X = chat_effects st @ [RecorderStop]"
    using stop by simp
  have "chat_effects (chat_onstop ?r env ?X) =
          chat_effects ?X @ chat_new_effects ?X (chat_onstop ?r env ?X)"
    by (rule handler_effects_split(3))
  then have "chat_effects (chat_step st (MicClick m env)) =
          chat_effects st @ (RecorderStop # chat_new_effects ?X (chat_onstop ?r env ?X))"
    unfolding step X by simp
  then have "chat_new_effects st (chat_step st (MicClick m env)) =
          RecorderStop # chat_new_effects ?X (chat_onstop ?r env ?X)"
    by (rule chat_new_effects_append)
  with r show ?thesis by blast
qed

lemma ids_chat_dispatch [simp]:
  "map session_id (sessions (chat_dispatch env st)) = map session_id (sessions st)"
  by (simp add: chat_dispatch_cases split: option.splits)

lemma ids_step:
  "map session_id (sessions (chat_step st ev)) =
     map session_id (sessions st) @ (case ev of NewChat clk \<Rightarrow> [toString (fst clk)] | _ \<Rightarrow> [])"
  by (cases ev)
     (simp_all add: chat_step.simps state_createNewSession state_stopVoiceRecording
        state_startVoiceRecording)

lemma chat_inv_step:
  assumes "chat_inv st"
  shows "chat_inv (chat_step st ev)"
proof (cases ev)
  case (TypeInput s)
  with assms show ?thesis by (auto simp: chat_step.simps chat_inv_def split: option.splits)
next
  case (SendMessage env)
  with assms show ?thesis
    by (auto simp: chat_step.simps chat_inv_def state_handleSendMessage split: option.splits)
next
  case (FileUpload env)
  with assms show ?thesis
    by (auto simp: chat_step.simps chat_inv_def state_handleFileUpload split: option.splits)
next
  case (NewChat clk)
  with assms show ?thesis
    by (auto simp: chat_step.simps chat_inv_def state_createNewSession split: option.splits)
next
  case (SelectSession i)
  with assms show ?thesis
    by (auto simp: chat_step.simps chat_inv_def split: option.splits)
next
  case (MicClick m env)
  show ?thesis
  proof (cases "isRecording st")
    case True
    from mic_click_recording [OF assms True, of m env] obtain r where
      r: "chat_mediaRecorderRef st = Some r" "chat_rstate r = Recording"
         "captured_activeSession r \<in> set (map session_id (sessions st))"
      and step: "chat_step st (MicClick m env) =
         chat_onstop (r\<lparr>chat_rstate := Inactive, chunks := chunks r @ voice_data env\<rparr>) env
           ((stopVoiceRecording st)\<lparr>chat_mediaRecorderRef :=
               Some (r\<lparr>chat_rstate := Inactive, chunks := chunks r @ voice_data env\<rparr>)\<rparr>)"
      by blast
    from assms r True show ?thesis
      unfolding MicClick step
      by (simp add: chat_inv_def state_chat_onstop state_stopVoiceRecording)
  next
    case False
    with assms show ?thesis
      unfolding MicClick mic_click_idle [OF assms False]
      by (cases m) (auto simp: chat_inv_def state_startVoiceRecording split: option.splits)
  qed
qed

lemma chat_inv_init: "chat_inv (chat_init date)"
  by (simp add: chat_inv_def chat_init_def)

lemma chat_inv_run: "chat_inv (chat_run date evs)"
  by (induction evs rule: rev_induct) (simp_all add: chat_run_def chat_inv_init chat_inv_step)

lemma chat_inv_foldl: "chat_inv st \<Longrightarrow> chat_inv (foldl chat_step st evs)"
  by (induction evs arbitrary: st) (simp_all add: chat_inv_step)

lemma other_event_fields:
  assumes "\<not> is_mic_click ev"
  shows "isRecording (chat_step st ev) = isRecording st \<and>
    chat_mediaRecorderRef (chat_step st ev) = chat_mediaRecorderRef st \<and>
    chat_effects (chat_step st ev) = chat_effects st @ chat_new_effects st (chat_step st ev) \<and>
    transcriptions (chat_new_effects st (chat_step st ev)) = [] \<and>
    stops (chat_new_effects st (chat_step st ev)) = []"
proof (cases ev)
  case (TypeInput s)
  then show ?thesis
    by (simp add: chat_step.simps chat_new_effects_def)
next
  case (SendMessage env)
  then show ?thesis
    using handler_effects_split(1) [of env st]
    by (simp add: chat_step.simps state_handleSendMessage handler_transcriptions handler_stops)
next
  case (FileUpload env)
  then show ?thesis
    using handler_effects_split(2) [of env st]
    by (simp add: chat_step.simps state_handleFileUpload handler_transcriptions handler_stops)
next
  case (MicClick m env)
  with assms show ?thesis
    by simp
next
  case (NewChat clk)
  then show ?thesis
    by (simp add: chat_step.simps state_createNewSession chat_new_effects_def)
next
  case (SelectSession i)
  then show ?thesis
    by (simp add: chat_step.simps chat_new_effects_def)
qed

lemma mic_click_recording_prefix:
  assumes "chat_inv st" "isRecording st"
  shows "chat_effects (chat_step st (MicClick m env)) =
           chat_effects st @ chat_new_effects st (chat_step st (MicClick m env))"
proof -
  from mic_click_recording [OF assms, of m env] obtain r where
    step: "chat_step st (MicClick m env) =
       chat_onstop (r\<lparr>chat_rstate := Inactive, chunks := chunks r @ voice_data env\<rparr>) env
         ((stopVoiceRecording st)\<lparr>chat_mediaRecorderRef :=
             Some (r\<lparr>chat_rstate := Inactive, chunks := chunks r @ voice_data env\<rparr>)\<rparr>)"
    and stop: "chat_effects (stopVoiceRecording st) = chat_effects st @ [RecorderStop]"
    by blast
  let ?r = "r\<lparr>chat_rstate := Inactive, chunks := chunks r @ voice_data env\<rparr>"
  let ?X = "(stopVoiceRecording st)\<lparr>chat_mediaRecorderRef := Some ?r\<rparr>"
  have X: "chat_effects ?X = chat_effects st @ [RecorderStop]"
    using stop by simp
  have "chat_effects (chat_onstop ?r env ?X) =
          chat_effects ?X @ chat_new_effects ?X (chat_onstop ?r env ?X)"
    by (rule handler_effects_split(3))
  then have "chat_effects (chat_step st (MicClick m env)) =
          chat_effects st @ (RecorderStop # chat_new_effects ?X (chat_onstop ?r env ?X))"
    unfolding step X by simp
  then show ?thesis
    by (simp add: chat_new_effects_def)
qed

lemma transcriptions_Cons_stop [simp]: "transcriptions (RecorderStop # es) = transcriptions es"
  by (simp add: transcriptions_def)

lemma stops_Cons_stop [simp]: "stops (RecorderStop # es) = RecorderStop # stops es"
  by (simp add: stops_def)

lemma mic_click_counts:
  assumes "chat_inv st"
  shows "chat_effects (chat_step st (MicClick m env)) =
           chat_effects st @ chat_new_effects st (chat_step st (MicClick m env))
     \<and> length (transcriptions (chat_new_effects st (chat_step st (MicClick m env)))) =
           (if isRecording st then 1 else 0)
     \<and> length (stops (chat_new_effects st (chat_step st (MicClick m env)))) =
           (if isRecording st then 1 else 0)
     \<and> isRecording (chat_step st (MicClick m env)) = (\<not> isRecording st \<and> m = Granted)"
proof (cases "isRecording st")
  case True
  from mic_click_recording_effects [OF assms True, of m env] obtain r X where
    new: "chat_new_effects st (chat_step st (MicClick m env)) =
         RecorderStop #
         chat_new_effects X
           (chat_onstop (r\<lparr>chat_rstate := Inactive, chunks := chunks r @ voice_data env\<rparr>) env X)"
    by blast
  from mic_click_recording [OF assms True, of m env]
  have rec: "\<not> isRecording (chat_step st (MicClick m env))"
    by (auto simp: state_chat_onstop state_stopVoiceRecording)
  show ?thesis
    using True rec mic_click_recording_prefix [OF assms True, of m env]
    by (simp add: new handler_transcriptions handler_stops)
next
  case False
  show ?thesis
    unfolding mic_click_idle [OF assms False]
    using False
    by (cases m)
       (simp_all add: state_startVoiceRecording chat_new_effects_def transcriptions_def stops_def)
qed

lemma step_counts:
  assumes "chat_inv st"
  shows "chat_effects (chat_step st ev) = chat_effects st @ chat_new_effects st (chat_step st ev)
     \<and> length (transcriptions (chat_new_effects st (chat_step st ev))) =
           (if is_mic_click ev \<and> isRecording st then 1 else 0)
     \<and> length (stops (chat_new_effects st (chat_step st ev))) =
           (if is_mic_click ev \<and> isRecording st then 1 else 0)"
proof (cases "is_mic_click ev")
  case False
  then show ?thesis
    using other_event_fields [OF False, of st] by simp
next
  case True
  then obtain m env where ev: "ev = MicClick m env"
    by (cases ev) simp_all
  show ?thesis
    unfolding ev using mic_click_counts [OF assms, of m env] by simp
qed

lemma run_counts:
  assumes "chat_inv st"
  shows "length (transcriptions (chat_new_effects st (foldl chat_step st evs))) =
         length (stops (chat_new_effects st (foldl chat_step st evs)))
     \<and> chat_effects (foldl chat_step st evs) =
         chat_effects st @ chat_new_effects st (foldl chat_step st evs)"
  using assms
proof (induction evs arbitrary: st)
  case Nil
  show ?case by (simp add: chat_new_effects_def)
next
  case (Cons ev evs)
  define st1 where "st1 = chat_step st ev"
  define a where "a = chat_new_effects st st1"
  define b where "b = chat_new_effects st1 (foldl chat_step st1 evs)"
  have inv1: "chat_inv st1" unfolding st1_def using Cons.prems by (rule chat_inv_step)
  from step_counts [OF Cons.prems, of ev]
  have one: "chat_effects st1 = chat_effects st @ a"
    and one_count: "length (transcriptions a) = length (stops a)"
    unfolding st1_def a_def by simp_all
  from Cons.IH [OF inv1]
  have ih: "chat_effects (foldl chat_step st1 evs) = chat_effects st1 @ b"
    and ih_count: "length (transcriptions b) = length (stops b)"
    unfolding b_def by simp_all
  have eff: "chat_effects (foldl chat_step st1 evs) = chat_effects st @ (a @ b)"
    unfolding ih one by simp
  then have new: "chat_new_effects st (foldl chat_step st1 evs) = a @ b"
    by (rule chat_new_effects_append)
  have "foldl chat_step st (ev # evs) = foldl chat_step st1 evs"
    by (simp add: st1_def)
  then show ?case
    unfolding new using eff one_count ih_count
    by (simp only: new transcriptions_append stops_append length_append)
qed

lemma between_counts:
  assumes "chat_inv st" "list_all (\<lambda>e. \<not> is_mic_click e) evs"
  shows "isRecording (foldl chat_step st evs) = isRecording st
     \<and> transcriptions (chat_new_effects st (foldl chat_step st evs)) = []
     \<and> stops (chat_new_effects st (foldl chat_step st evs)) = []
     \<and> chat_effects (foldl chat_step st evs) =
         chat_effects st @ chat_new_effects st (foldl chat_step st evs)"
  using assms
proof (induction evs arbitrary: st)
  case Nil
  show ?case by (simp add: chat_new_effects_def)
next
  case (Cons ev evs)
  define st1 where "st1 = chat_step st ev"
  define a where "a = chat_new_effects st st1"
  define b where "b = chat_new_effects st1 (foldl chat_step st1 evs)"
  from Cons.prems have nm: "\<not> is_mic_click ev" and rest: "list_all (\<lambda>e. \<not> is_mic_click e) evs"
    by simp_all
  have inv1: "chat_inv st1" unfolding st1_def using Cons.prems(1) by (rule chat_inv_step)
  from other_event_fields [OF nm, of st]
  have one: "chat_effects st1 = chat_effects st @ a" "transcriptions a = []" "stops a = []"
    and rec1: "isRecording st1 = isRecording st"
    unfolding st1_def a_def by simp_all
  from Cons.IH [OF inv1 rest]
  have ih: "chat_effects (foldl chat_step st1 evs) = chat_effects st1 @ b"
      "transcriptions b = []" "stops b = []"
    and rec: "isRecording (foldl chat_step st1 evs) = isRecording st1"
    unfolding b_def by simp_all
  have eff: "chat_effects (foldl chat_step st1 evs) = chat_effects st @ (a @ b)"
    unfolding ih(1) one(1) by simp
  then have new: "chat_new_effects st (foldl chat_step st1 evs) = a @ b"
    by (rule chat_new_effects_append)
  have unf: "foldl chat_step st (ev # evs) = foldl chat_step st1 evs"
    by (simp add: st1_def)
  show ?case
    unfolding unf new using eff one ih rec rec1
    by (simp only: transcriptions_append stops_append append_Nil2 simp_thms)
qed

lemma recording_cycle:
  assumes "chat_inv st" "\<not> isRecording st" "list_all (\<lambda>e. \<not> is_mic_click e) between"
  shows "length (transcriptions (chat_new_effects st
           (foldl chat_step st (MicClick Granted env1 # between @ [MicClick m env2])))) = 1
     \<and> length (stops (chat_new_effects st
           (foldl chat_step st (MicClick Granted env1 # between @ [MicClick m env2])))) = 1"
proof -
  define st1 where "st1 = chat_step st (MicClick Granted env1)"
  define st2 where "st2 = foldl chat_step st1 between"
  define st3 where "st3 = chat_step st2 (MicClick m env2)"
  define a where "a = chat_new_effects st st1"
  define b where "b = chat_new_effects st1 st2"
  define c where "c = chat_new_effects st2 st3"
  have inv1: "chat_inv st1" unfolding st1_def using assms(1) by (rule chat_inv_step)
  have inv2: "chat_inv st2" unfolding st2_def using inv1 by (rule chat_inv_foldl)
  from mic_click_counts [OF assms(1), of Granted env1] assms(2)
  have one: "chat_effects st1 = chat_effects st @ a" "length (transcriptions a) = 0"
      "length (stops a) = 0" "isRecording st1"
    unfolding st1_def a_def by simp_all
  from between_counts [OF inv1 assms(3)] one(4)
  have two: "chat_effects st2 = chat_effects st1 @ b" "transcriptions b = []" "stops b = []"
      "isRecording st2"
    unfolding st2_def b_def by simp_all
  from mic_click_counts [OF inv2, of m env2] two(4)
  have three: "chat_effects st3 = chat_effects st2 @ c" "length (transcriptions c) = 1"
      "length (stops c) = 1"
    unfolding st3_def c_def by simp_all
  have "chat_effects st3 = chat_effects st @ (a @ b @ c)"
    unfolding three(1) two(1) one(1) by simp
  then have new: "chat_new_effects st st3 = a @ b @ c"
    by (rule chat_new_effects_append)
  have unf: "foldl chat_step st (MicClick Granted env1 # between @ [MicClick m env2]) = st3"
    by (simp add: st3_def st2_def st1_def)
  show ?thesis
    unfolding unf new using one two three by simp
qed

subsection \<open>The voice screen: what each event adds\<close>

lemma voice_step_counts:
  assumes "voice_inv st"
  shows "effects (voice_step st ev) = effects st @ new_effects st (voice_step st ev)
     \<and> length (transcriptions (new_effects st (voice_step st ev))) =
         (case ev of Click env \<Rightarrow> if isListening st then 1 else 0 | UtteranceEnd \<Rightarrow> 0)
     \<and> length (stops (new_effects st (voice_step st ev))) =
         (case ev of Click env \<Rightarrow> if isListening st then 1 else 0 | UtteranceEnd \<Rightarrow> 0)"
proof (cases ev)
  case UtteranceEnd
  then show ?thesis
    by (simp add: voice_step.simps new_effects_def)
next
  case (Click env)
  have split: "effects (voice_step st ev) = effects st @ new_effects st (voice_step st ev)"
    using assms by (rule step_effects_split)
  have req: "transcriptions (new_effects st (voice_step st ev)) =
      (if isListening st
       then [(voice_transcribe_url,
              [(''file'', File \<lparr>parts = audioChunksRef st @ recorded env,
                                  blob_type = ascii ''audio/webm''\<rparr> (ascii ''recording.webm''))])]
       else [])"
    unfolding transcriptions_def step_requests [OF assms] Click
    by (simp split: option.splits)
  have stp: "stops (new_effects st (voice_step st ev)) = (if isListening st then [RecorderStop] else [])"
    unfolding Click new_effects_def click_effects [OF assms]
    by (simp add: stops_def split: option.splits mic_result.splits)
  show ?thesis
    using split req stp unfolding Click by simp
qed

lemma voice_inv_foldl: "voice_inv st \<Longrightarrow> voice_inv (foldl voice_step st evs)"
  by (induction evs arbitrary: st) (simp_all add: voice_inv_step)

lemma voice_run_counts:
  assumes "voice_inv st"
  shows "length (transcriptions (new_effects st (foldl voice_step st evs))) =
         length (stops (new_effects st (foldl voice_step st evs)))
     \<and> effects (foldl voice_step st evs) = effects st @ new_effects st (foldl voice_step st evs)"
  using assms
proof (induction evs arbitrary: st)
  case Nil
  show ?case by (simp add: new_effects_def)
next
  case (Cons ev evs)
  define st1 where "st1 = voice_step st ev"
  define a where "a = new_effects st st1"
  define b where "b = new_effects st1 (foldl voice_step st1 evs)"
  have inv1: "voice_inv st1" unfolding st1_def using Cons.prems by (rule voice_inv_step)
  from voice_step_counts [OF Cons.prems, of ev]
  have one: "effects st1 = effects st @ a"
    and one_count: "length (transcriptions a) = length (stops a)"
    unfolding st1_def a_def by simp_all
  from Cons.IH [OF inv1]
  have ih: "effects (foldl voice_step st1 evs) = effects st1 @ b"
    and ih_count: "length (transcriptions b) = length (stops b)"
    unfolding b_def by simp_all
  have eff: "effects (foldl voice_step st1 evs) = effects st @ (a @ b)"
    unfolding ih one by simp
  then have new: "new_effects st (foldl voice_step st1 evs) = a @ b"
    by (rule new_effects_append)
  have unf: "foldl voice_step st (ev # evs) = foldl voice_step st1 evs"
    by (simp add: st1_def)
  show ?case
    unfolding unf new using eff one_count ih_count
    by (simp only: transcriptions_append stops_append length_append)
qed

lemma utterance_ends:
  assumes "voice_inv st"
  shows "isListening (foldl voice_step st (replicate n UtteranceEnd)) = isListening st
     \<and> effects (foldl voice_step st (replicate n UtteranceEnd)) = effects st"
  using assms
proof (induction n arbitrary: st)
  case 0
  show ?case by simp
next
  case (Suc n)
  have "voice_inv (voice_step st UtteranceEnd)"
    using Suc.prems by (rule voice_inv_step)
  from Suc.IH [OF this] show ?case
    by (simp add: voice_step.simps)
qed

lemma listening_cycle:
  assumes "voice_inv st" "\<not> isListening st" "mic env1 = Granted"
  shows "length (transcriptions (new_effects st
           (foldl voice_step st (Click env1 # replicate n UtteranceEnd @ [Click env2])))) = 1
     \<and> length (stops (new_effects st
           (foldl voice_step st (Click env1 # replicate n UtteranceEnd @ [Click env2])))) = 1"
proof -
  define st1 where "st1 = voice_step st (Click env1)"
  define st2 where "st2 = foldl voice_step st1 (replicate n UtteranceEnd)"
  define st3 where "st3 = voice_step st2 (Click env2)"
  define a where "a = new_effects st st1"
  define c where "c = new_effects st2 st3"
  have inv1: "voice_inv st1" unfolding st1_def using assms(1) by (rule voice_inv_step)
  have inv2: "voice_inv st2" unfolding st2_def using inv1 by (rule voice_inv_foldl)
  from voice_step_counts [OF assms(1), of "Click env1"] assms(2)
  have one: "effects st1 = effects st @ a" "length (transcriptions a) = 0" "length (stops a) = 0"
    unfolding st1_def a_def by simp_all
  have l1: "isListening st1"
    unfolding st1_def using assms by (simp add: click_isListening)
  from utterance_ends [OF inv1, of n] l1
  have two: "effects st2 = effects st1" "isListening st2"
    unfolding st2_def by simp_all
  from voice_step_counts [OF inv2, of "Click env2"] two(2)
  have three: "effects st3 = effects st2 @ c" "length (transcriptions c) = 1" "length (stops c) = 1"
    unfolding st3_def c_def by simp_all
  have "effects st3 = effects st @ (a @ c)"
    unfolding three(1) two(1) one(1) by simp
  then have new: "new_effects st st3 = a @ c"
    by (rule new_effects_append)
  have unf: "foldl voice_step st (Click env1 # replicate n UtteranceEnd @ [Click env2]) = st3"
    by (simp add: st3_def st2_def st1_def)
  show ?thesis
    unfolding unf new using one three by simp
qed

section \<open>Results over runs\<close>

text \<open>
  C4. In the chat panel, from any reachable state in which no recording is in progress, a
  click that starts a recording, any events other than clicks on the microphone button, and
  the click that stops the recording issue exactly one request to the transcription
  endpoint, for the one call of \<^verbatim>\<open>stop()\<close>; over every run the transcription requests
  are as many as the calls of \<^verbatim>\<open>stop()\<close>. The same holds of the voice screen.
\<close>

theorem one_upload_per_recording:
  "(\<not> isRecording (chat_run date evs) \<and> list_all (\<lambda>e. \<not> is_mic_click e) between
      \<longrightarrow> length (transcriptions (chat_new_effects (chat_run date evs)
             (foldl chat_step (chat_run date evs)
                (MicClick Granted env1 # between @ [MicClick m env2])))) = 1
          \<and> length (stops (chat_new_effects (chat_run date evs)
             (foldl chat_step (chat_run date evs)
                (MicClick Granted env1 # between @ [MicClick m env2])))) = 1)
   \<and> length (transcriptions (chat_effects (chat_run date evs))) =
       length (stops (chat_effects (chat_run date evs)))
   \<and> (\<not> isListening (voice_run vevs) \<and> mic venv1 = Granted
      \<longrightarrow> length (transcriptions (new_effects (voice_run vevs)
             (foldl voice_step (voice_run vevs)
                (Click venv1 # replicate n UtteranceEnd @ [Click venv2])))) = 1
          \<and> length (stops (new_effects (voice_run vevs)
             (foldl voice_step (voice_run vevs)
                (Click venv1 # replicate n UtteranceEnd @ [Click venv2])))) = 1)
   \<and> length (transcriptions (effects (voice_run vevs))) = length (stops (effects (voice_run vevs)))"
proof (intro conjI impI)
  assume a: "\<not> isRecording (chat_run date evs) \<and> list_all (\<lambda>e. \<not> is_mic_click e) between"
  note cyc = recording_cycle [OF chat_inv_run, of date evs between env1 m env2]
  from a cyc show "length (transcriptions (chat_new_effects (chat_run date evs)
             (foldl chat_step (chat_run date evs)
                (MicClick Granted env1 # between @ [MicClick m env2])))) = 1"
    by blast
  from a cyc show "length (stops (chat_new_effects (chat_run date evs)
             (foldl chat_step (chat_run date evs)
                (MicClick Granted env1 # between @ [MicClick m env2])))) = 1"
    by blast
next
  have "chat_effects (chat_init date) = []"
    by (simp add: chat_init_def)
  then have "chat_new_effects (chat_init date) st = chat_effects st" for st
    by (simp add: chat_new_effects_def)
  with run_counts [OF chat_inv_init, of date evs]
  show "length (transcriptions (chat_effects (chat_run date evs))) =
       length (stops (chat_effects (chat_run date evs)))"
    by (simp add: chat_run_def)
next
  assume a: "\<not> isListening (voice_run vevs) \<and> mic venv1 = Granted"
  note cyc = listening_cycle [OF voice_inv_run, of vevs venv1 n venv2]
  from a cyc show "length (transcriptions (new_effects (voice_run vevs)
             (foldl voice_step (voice_run vevs)
                (Click venv1 # replicate n UtteranceEnd @ [Click venv2])))) = 1"
    by blast
  from a cyc show "length (stops (new_effects (voice_run vevs)
             (foldl voice_step (voice_run vevs)
                (Click venv1 # replicate n UtteranceEnd @ [Click venv2])))) = 1"
    by blast
next
  have "effects voice_init = []"
    by (simp add: voice_init_def)
  then have "new_effects voice_init st = effects st" for st
    by (simp add: new_effects_def)
  with voice_run_counts [OF voice_inv_init, of vevs]
  show "length (transcriptions (effects (voice_run vevs))) = length (stops (effects (voice_run vevs)))"
    by (simp add: voice_run_def)
qed

theorem one_upload_per_recording_witness:
  "let heard = Response 200 (BodyJson \<lparr>data_text = Str (ascii ''hi''), data_response = Undefined,
                  data_session_id = Undefined, data_detail = Undefined\<rparr>);
       env = \<lparr>voice_data = [[1]], voice_url = ascii ''blob:1'', voice_clock = (1, 1),
               voice_transcribe_reply = heard, text_clock = (2, 2),
               voice_chat_reply = NetworkError [], reply_clock = (3, 3)\<rparr>;
       venv = \<lparr>mic = Granted, recorded = [[1]], transcribe_reply = heard, chat_reply = NetworkError []\<rparr>;
       typing = [TypeInput (ascii ''x''), SelectSession 0]
   in \<not> isRecording (chat_run 0 [])
      \<and> list_all (\<lambda>e. \<not> is_mic_click e) typing
      \<and> length (transcriptions (chat_new_effects (chat_run 0 [])
             (foldl chat_step (chat_run 0 []) (MicClick Granted env # typing @ [MicClick Granted env])))) = 1
      \<and> length (stops (chat_new_effects (chat_run 0 [])
             (foldl chat_step (chat_run 0 []) (MicClick Granted env # typing @ [MicClick Granted env])))) = 1
      \<and> \<not> isListening (voice_run [])
      \<and> mic venv = Granted
      \<and> length (transcriptions (new_effects (voice_run [])
             (foldl voice_step (voice_run []) (Click venv # replicate 2 UtteranceEnd @ [Click venv])))) = 1"
proof -
  define heard where "heard = Response 200 (BodyJson \<lparr>data_text = Str (ascii ''hi''), data_response = Undefined,
                  data_session_id = Undefined, data_detail = Undefined\<rparr>)"
  define env where "env = \<lparr>voice_data = [[1]], voice_url = ascii ''blob:1'', voice_clock = (1, 1),
               voice_transcribe_reply = heard, text_clock = (2, 2),
               voice_chat_reply = NetworkError [], reply_clock = (3, 3)\<rparr>"
  define venv where "venv = \<lparr>mic = Granted, recorded = [[1]], transcribe_reply = heard, chat_reply = NetworkError []\<rparr>"
  define typing where "typing = [TypeInput (ascii ''x''), SelectSession 0]"
  note defs = heard_def env_def venv_def typing_def
  have h1: "\<not> isRecording (chat_run 0 [])"
    by (simp add: chat_run_def chat_init_def)
  have h2: "list_all (\<lambda>e. \<not> is_mic_click e) typing"
    by (simp add: typing_def)
  have h3: "\<not> isListening (voice_run [])"
    by (simp add: voice_run_def voice_init_def)
  have h4: "mic venv = Granted"
    by (simp add: venv_def)
  note inst = one_upload_per_recording [of 0 "[]" typing env Granted env "[]" venv 2 venv]
  from inst h1 h2 have
    "length (transcriptions (chat_new_effects (chat_run 0 [])
             (foldl chat_step (chat_run 0 []) (MicClick Granted env # typing @ [MicClick Granted env])))) = 1"
    and "length (stops (chat_new_effects (chat_run 0 [])
             (foldl chat_step (chat_run 0 []) (MicClick Granted env # typing @ [MicClick Granted env])))) = 1"
    by blast+
  moreover from inst h3 h4 have
    "length (transcriptions (new_effects (voice_run [])
             (foldl voice_step (voice_run []) (Click venv # replicate 2 UtteranceEnd @ [Click venv])))) = 1"
    by blast
  ultimately
  have "\<not> isRecording (chat_run 0 [])
      \<and> list_all (\<lambda>e. \<not> is_mic_click e) typing
      \<and> length (transcriptions (chat_new_effects (chat_run 0 [])
             (foldl chat_step (chat_run 0 []) (MicClick Granted env # typing @ [MicClick Granted env])))) = 1
      \<and> length (stops (chat_new_effects (chat_run 0 [])
             (foldl chat_step (chat_run 0 []) (MicClick Granted env # typing @ [MicClick Granted env])))) = 1
      \<and> \<not> isListening (voice_run [])
      \<and> mic venv = Granted
      \<and> length (transcriptions (new_effects (voice_run [])
             (foldl voice_step (voice_run []) (Click venv # replicate 2 UtteranceEnd @ [Click venv])))) = 1"
    using h1 h2 h3 h4 by blast
  then show ?thesis
    unfolding Let_def defs .
qed

section \<open>ChatInterface: the order of the messages\<close>

lemma sessions_extend_nth:
  assumes "sessions_extend ss ss'" "i < length ss"
  shows "session_id (ss' ! i) = session_id (ss ! i) \<and> prefix (messages (ss ! i)) (messages (ss' ! i))"
proof -
  from assms have len: "length ss \<le> length ss'"
    and all: "list_all2 (\<lambda>s s'. session_id s' = session_id s \<and> session_name s' = session_name s
                     \<and> createdAt s' = createdAt s \<and> prefix (messages s) (messages s'))
           ss (take (length ss) ss')"
    by (simp_all add: sessions_extend_def)
  from list_all2_nthD [OF all assms(2)] assms(2) len show ?thesis
    by simp
qed

lemma addMessage_one_session:
  assumes "distinct (map session_id (sessions st))"
    and "active \<in> set (map session_id (sessions st))"
  shows "\<exists>!i. i < length (sessions st)
           \<and> sessions (addMessage active cont ty snder url clk st) ! i \<noteq> sessions st ! i"
proof -
  let ?ss = "sessions st"
  let ?ss' = "sessions (addMessage active cont ty snder url clk st)"
  have changed: "(?ss' ! i \<noteq> ?ss ! i) = (session_id (?ss ! i) = active)" if "i < length ?ss" for i
  proof -
    have "messages (?ss' ! i) =
        messages (?ss ! i) @ (if session_id (?ss ! i) = active then [newMessage cont ty snder url clk] else [])"
      using that by (simp add: sessions_addMessage nth_append_to)
    moreover have "?ss' ! i = ?ss ! i" if "session_id (?ss ! i) \<noteq> active"
      using that \<open>i < length ?ss\<close> by (simp add: sessions_addMessage nth_append_to)
    ultimately show ?thesis
      by (cases "session_id (?ss ! i) = active") auto
  qed
  from assms(2) obtain i where i: "i < length ?ss" "session_id (?ss ! i) = active"
    by (auto simp: in_set_conv_nth)
  show ?thesis
  proof (rule ex1I [of _ i])
    show "i < length ?ss \<and> ?ss' ! i \<noteq> ?ss ! i"
      using i changed by simp
  next
    fix j assume "j < length ?ss \<and> ?ss' ! j \<noteq> ?ss ! j"
    with changed have j: "j < length ?ss" "session_id (?ss ! j) = active"
      by auto
    with i have "map session_id ?ss ! i = map session_id ?ss ! j"
      by simp
    moreover have "i < length (map session_id ?ss)" "j < length (map session_id ?ss)"
      using i(1) j(1) by simp_all
    ultimately show "j = i"
      using assms(1) nth_eq_iff_index_eq by blast
  qed
qed

text \<open>
  What holds of the order of the messages, whatever the ids. \<^verbatim>\<open>addMessage\<close> appends the
  new message at the end of the message list of every session whose id is the active id it
  reads and changes nothing else; when the session ids are pairwise distinct and the active
  id is among them, that is exactly one session. Over any sequence of events every session
  keeps its position and its id, and the messages it had remain, in order, a prefix of the
  messages it has. In every run the ids the handlers read exist.
\<close>

theorem messages_appended_in_order:
  "(\<forall>i. i < length (sessions st) \<longrightarrow>
       sessions (addMessage active cont ty snder url clk st) ! i =
         (sessions st ! i)\<lparr>messages := messages (sessions st ! i) @
            (if session_id (sessions st ! i) = active then [newMessage cont ty snder url clk] else [])\<rparr>)
   \<and> length (sessions (addMessage active cont ty snder url clk st)) = length (sessions st)
   \<and> (distinct (map session_id (sessions st)) \<and> active \<in> set (map session_id (sessions st))
        \<longrightarrow> (\<exists>!i. i < length (sessions st)
               \<and> sessions (addMessage active cont ty snder url clk st) ! i \<noteq> sessions st ! i))
   \<and> (\<forall>i. i < length (sessions st) \<longrightarrow>
         session_id (sessions (foldl chat_step st evs) ! i) = session_id (sessions st ! i)
         \<and> prefix (messages (sessions st ! i)) (messages (sessions (foldl chat_step st evs) ! i)))
   \<and> activeSession (chat_run date evs) \<in> set (map session_id (sessions (chat_run date evs)))
   \<and> (\<forall>r. chat_mediaRecorderRef (chat_run date evs) = Some r \<longrightarrow>
         captured_activeSession r \<in> set (map session_id (sessions (chat_run date evs))))"
proof (intro conjI allI impI)
  show "sessions (addMessage active cont ty snder url clk st) ! i =
         (sessions st ! i)\<lparr>messages := messages (sessions st ! i) @
            (if session_id (sessions st ! i) = active then [newMessage cont ty snder url clk] else [])\<rparr>"
    if "i < length (sessions st)" for i
    using that by (simp add: sessions_addMessage nth_append_to)
  show "length (sessions (addMessage active cont ty snder url clk st)) = length (sessions st)"
    by (simp add: sessions_addMessage)
  show "\<exists>!i. i < length (sessions st)
               \<and> sessions (addMessage active cont ty snder url clk st) ! i \<noteq> sessions st ! i"
    if "distinct (map session_id (sessions st)) \<and> active \<in> set (map session_id (sessions st))"
    using that addMessage_one_session by blast
  show "session_id (sessions (foldl chat_step st evs) ! i) = session_id (sessions st ! i)"
    and "prefix (messages (sessions st ! i)) (messages (sessions (foldl chat_step st evs) ! i))"
    if "i < length (sessions st)" for i
    using sessions_extend_nth [OF sessions_extend_run that, of evs] by simp_all
  show "activeSession (chat_run date evs) \<in> set (map session_id (sessions (chat_run date evs)))"
    using chat_inv_run [of date evs] by (simp add: chat_inv_def)
  show "captured_activeSession r \<in> set (map session_id (sessions (chat_run date evs)))"
    if "chat_mediaRecorderRef (chat_run date evs) = Some r" for r
    using chat_inv_run [of date evs] that by (simp add: chat_inv_def)
qed

lemma toString_now: "toString 1762100000000 = ascii ''1762100000000''"
  by (simp add: toString.simps ascii_def)

theorem messages_appended_in_order_witness:
  "let st = chat_init 0;
       senv = \<lparr>voice_data = [], voice_url = ascii ''blob:1'', voice_clock = (1, 1),
               voice_transcribe_reply = NetworkError [], text_clock = (2, 2),
               voice_chat_reply = NetworkError [], reply_clock = (3, 3)\<rparr>;
       env = \<lparr>user_clock = (1762100005000, 1762100005000), send_reply = NetworkError [],
               bot_clock = (1762100006000, 1762100006000)\<rparr>;
       evs = [NewChat (1762100000000, 1762100000000), MicClick Granted senv,
              SelectSession 0, TypeInput (ascii ''hi''), SendMessage env];
       st' = addMessage (ascii ''1'') (Str (ascii ''hi'')) MsgText User Undefined (5, 5) st
   in 0 < length (sessions st)
      \<and> messages (sessions st' ! 0) = [newMessage (Str (ascii ''hi'')) MsgText User Undefined (5, 5)]
      \<and> distinct (map session_id (sessions st)) \<and> ascii ''1'' \<in> set (map session_id (sessions st))
      \<and> (\<exists>!i. i < length (sessions st) \<and> sessions st' ! i \<noteq> sessions st ! i)
      \<and> prefix (messages (sessions st ! 0)) (messages (sessions (foldl chat_step st evs) ! 0))
      \<and> chat_mediaRecorderRef (chat_run 0 evs) =
          Some \<lparr>chat_rstate = Recording, chunks = [], captured_activeSession = ascii ''1762100000000''\<rparr>
      \<and> ascii ''1762100000000'' \<in> set (map session_id (sessions (chat_run 0 evs)))"
proof -
  define st where "st = chat_init 0"
  define senv where "senv = \<lparr>voice_data = [], voice_url = ascii ''blob:1'', voice_clock = (1, 1),
               voice_transcribe_reply = NetworkError [], text_clock = (2, 2),
               voice_chat_reply = NetworkError [], reply_clock = (3, 3)\<rparr>"
  define env where "env = \<lparr>user_clock = (1762100005000, 1762100005000), send_reply = NetworkError [],
               bot_clock = (1762100006000, 1762100006000)\<rparr>"
  define evs where "evs = [NewChat (1762100000000, 1762100000000), MicClick Granted senv,
              SelectSession 0, TypeInput (ascii ''hi''), SendMessage env]"
  define st' where "st' = addMessage (ascii ''1'') (Str (ascii ''hi'')) MsgText User Undefined (5, 5) st"
  define r where "r = \<lparr>chat_rstate = Recording, chunks = [], captured_activeSession = ascii ''1762100000000''\<rparr>"
  note defs = st_def senv_def env_def evs_def st'_def
  have h1: "0 < length (sessions st)"
    by (simp add: st_def chat_init_def)
  have h2: "distinct (map session_id (sessions st)) \<and> ascii ''1'' \<in> set (map session_id (sessions st))"
    by (simp add: st_def chat_init_def)
  have h4: "chat_mediaRecorderRef (chat_run 0 evs) = Some r"
    by (simp add: evs_def r_def chat_run_def chat_step.simps state_handleSendMessage
          chat_dispatch_cases state_startVoiceRecording state_createNewSession toString_now)
       (simp add: chat_init_def)
  note inst = messages_appended_in_order
                [of st "ascii ''1''" "Str (ascii ''hi'')" MsgText User Undefined "(5, 5)" evs 0]
  from inst h1 have "sessions st' ! 0 =
         (sessions st ! 0)\<lparr>messages := messages (sessions st ! 0) @
            (if session_id (sessions st ! 0) = ascii ''1''
             then [newMessage (Str (ascii ''hi'')) MsgText User Undefined (5, 5)] else [])\<rparr>"
    unfolding st'_def by blast
  then have a: "messages (sessions st' ! 0) = [newMessage (Str (ascii ''hi'')) MsgText User Undefined (5, 5)]"
    by (simp add: st_def chat_init_def)
  from inst h2 have b: "\<exists>!i. i < length (sessions st) \<and> sessions st' ! i \<noteq> sessions st ! i"
    unfolding st'_def by blast
  from inst h1 have c: "prefix (messages (sessions st ! 0)) (messages (sessions (foldl chat_step st evs) ! 0))"
    by blast
  from inst h4 have e: "captured_activeSession r \<in> set (map session_id (sessions (chat_run 0 evs)))"
    by blast
  from h1 a h2 b c h4 e
  have "0 < length (sessions st)
      \<and> messages (sessions st' ! 0) = [newMessage (Str (ascii ''hi'')) MsgText User Undefined (5, 5)]
      \<and> distinct (map session_id (sessions st)) \<and> ascii ''1'' \<in> set (map session_id (sessions st))
      \<and> (\<exists>!i. i < length (sessions st) \<and> sessions st' ! i \<noteq> sessions st ! i)
      \<and> prefix (messages (sessions st ! 0)) (messages (sessions (foldl chat_step st evs) ! 0))
      \<and> chat_mediaRecorderRef (chat_run 0 evs) =
          Some \<lparr>chat_rstate = Recording, chunks = [], captured_activeSession = ascii ''1762100000000''\<rparr>
      \<and> ascii ''1762100000000'' \<in> set (map session_id (sessions (chat_run 0 evs)))"
    unfolding r_def by simp
  then show ?thesis
    unfolding Let_def defs .
qed

text \<open>
  C5, at the input where the code departs from it. Two clicks on \<^emph>\<open>New Chat\<close> get the same
  reading of \<^verbatim>\<open>Date.now()\<close>, hence the same id, and the second of the two sessions is
  the active one. The message sent next is appended to both sessions, not to exactly one:
  \<^verbatim>\<open>addMessage\<close> appends wherever the id equals the active id, and nothing keeps the ids
  of two sessions apart.
\<close>

theorem message_appended_to_two_sessions:
  "let env = \<lparr>user_clock = (1762100005000, 1762100005000), send_reply = NetworkError [],
               bot_clock = (1762100006000, 1762100006000)\<rparr>;
       st = chat_run 0 [NewChat (1762100000000, 1762100000000), NewChat (1762100000000, 1762100000000),
                        TypeInput (ascii ''hi''), SendMessage env]
   in map session_id (sessions st) = [ascii ''1'', ascii ''1762100000000'', ascii ''1762100000000'']
      \<and> map (map content \<circ> messages) (sessions st) = [[], [Str (ascii ''hi'')], [Str (ascii ''hi'')]]"
proof -
  have trim_hi: "trim (ascii ''hi'') = ascii ''hi''"
    by (simp add: trim_def ascii_def is_white_space_def)
  show ?thesis
    unfolding Let_def
    by (simp add: chat_run_def chat_step.simps sessions_handleSendMessage state_handleSendMessage
          state_createNewSession toString_now trim_hi append_to_def newMessage_def)
       (simp add: chat_init_def)
qed

section \<open>The page: speech and recording under interleaving\<close>

text \<open>The pieces of a handler, run one after the other, are the handler.\<close>

lemma startListening_pieces:
  "startListening m st = startListening_after_await (sessionId st) m (startListening_until_await st)"
  by (simp add: startListening_def startListening_after_await_def startListening_until_await_def Let_def)

lemma handleChat_pieces:
  "emit TracksStop (handleChat sid message reply st) =
     handleChat_after_await reply
       (emit (Fetch voice_chat_url
                ((if truthy sid then [(''session_id'', Text sid)] else []) @ [(''message'', Text message)])) st)"
  unfolding handleChat_def handleChat_after_await_def Let_def ..

lemma handleTranscription_pieces:
  "emit TracksStop (handleTranscription sid audioBlob reply chat st) =
     (let st1 = handleTranscription_after_await sid reply
                  (emit (Fetch voice_transcribe_url [(''file'', File audioBlob (ascii ''recording.webm''))]) st)
      in if reply_json reply = None then st1 else handleChat_after_await chat st1)"
proof (cases reply)
  case (NetworkError msg)
  then show ?thesis
    by (simp add: handleTranscription_def handleTranscription_after_await_def Let_def)
next
  case (Response status b)
  show ?thesis
  proof (cases "ok status")
    case False
    with Response show ?thesis
      by (cases b) (simp_all add: handleTranscription_def handleTranscription_after_await_def Let_def)
  next
    case True
    show ?thesis
    proof (cases b)
      case (BodyError msg)
      with Response True show ?thesis
        by (simp add: handleTranscription_def handleTranscription_after_await_def Let_def)
    next
      case (BodyJson d)
      have "handleTranscription sid audioBlob reply chat st =
          handleChat sid (data_text d) chat
            ((emit (Fetch voice_transcribe_url [(''file'', File audioBlob (ascii ''recording.webm''))]) st)
               \<lparr>transcript := data_text d\<rparr>)"
        using Response True BodyJson by (simp add: handleTranscription_def Let_def)
      moreover have "handleTranscription_after_await sid reply
            (emit (Fetch voice_transcribe_url [(''file'', File audioBlob (ascii ''recording.webm''))]) st) =
          emit (Fetch voice_chat_url
                  ((if truthy sid then [(''session_id'', Text sid)] else []) @ [(''message'', Text (data_text d))]))
            ((emit (Fetch voice_transcribe_url [(''file'', File audioBlob (ascii ''recording.webm''))]) st)
               \<lparr>transcript := data_text d\<rparr>)"
        using Response True BodyJson by (simp add: handleTranscription_after_await_def Let_def)
      moreover have "reply_json reply = Some d"
        using Response True BodyJson by simp
      ultimately show ?thesis
        by (simp add: handleChat_pieces Let_def)
    qed
  qed
qed

lemma onstop_pieces:
  "onstop r reply chat st =
     (let st1 = handleTranscription_after_await (captured_sessionId r) reply (onstop_until_await st)
      in if reply_json reply = None then st1 else handleChat_after_await chat st1)"
  unfolding onstop_def onstop_until_await_def Let_def
  using handleTranscription_pieces [of "captured_sessionId r" _ reply chat "st\<lparr>isProcessing := True\<rparr>"]
  unfolding Let_def by simp

lemma state_startListening_until_await [simp]:
  "speechSynthesis (startListening_until_await st) = []"
  "effects (startListening_until_await st) =
     effects st @ (if speaking (speechSynthesis st) \<or> pending (speechSynthesis st) then [SynthCancel] else [])
       @ [GetUserMedia]"
  "isListening (startListening_until_await st) = isListening st"
  "isProcessing (startListening_until_await st) = isProcessing st"
  "mediaRecorderRef (startListening_until_await st) = mediaRecorderRef st"
  "sessionId (startListening_until_await st) = sessionId st"
  by (auto simp: startListening_until_await_def cancel_def emit_def speaking_def pending_def)

lemma state_startListening_after_await [simp]:
  "speechSynthesis (startListening_after_await sid m st) = speechSynthesis st"
  "spoken (effects (startListening_after_await sid m st)) = spoken (effects st)"
  by (cases m; simp add: startListening_after_await_def emit_def)+

lemma speech_run_on_startListening [simp]:
  "speechSynthesis (screen (run_on i (startListening_after_await sid m) pg)) = speechSynthesis (screen pg)"
  "awaiting (run_on i f pg) = awaiting pg"
  by (simp_all add: run_on_def detached_def)




lemma start_click:
  assumes "currentMode pg = VoiceMode" "\<not> isProcessing (screen pg)" "\<not> isListening (screen pg)"
  shows "button_click data pg =
           pg\<lparr>screen := startListening_until_await (screen pg),
              awaiting := awaiting pg @ [AwaitMic (mounts pg) (sessionId (screen pg))]\<rparr>"
  using assms by (simp add: button_click_def Let_def)


text \<open>
  What a piece that follows an \<^verbatim>\<open>await\<close> does to the platform depends on the platform
  only, not on the state of the screen it runs on.
\<close>

lemma after_await_platform_only:
  assumes "speechSynthesis st' = speechSynthesis st" "effects st' = effects st"
  shows "speechSynthesis (startListening_after_await sid m st') = speechSynthesis (startListening_after_await sid m st)
       \<and> effects (startListening_after_await sid m st') = effects (startListening_after_await sid m st)"
    and "speechSynthesis (handleTranscription_after_await sid reply st') =
           speechSynthesis (handleTranscription_after_await sid reply st)
       \<and> effects (handleTranscription_after_await sid reply st') =
           effects (handleTranscription_after_await sid reply st)"
    and "speechSynthesis (handleChat_after_await reply st') = speechSynthesis (handleChat_after_await reply st)
       \<and> effects (handleChat_after_await reply st') = effects (handleChat_after_await reply st)"
  using assms
  by (auto simp: startListening_after_await_def handleTranscription_after_await_def
        handleChat_after_await_def emit_def Let_def
        split: fetch_result.splits body.splits mic_result.splits)

lemma new_effects_detached [simp]: "new_effects st (detached f st) = new_effects st (f st)"
  by (simp add: new_effects_def detached_def)



text \<open>
  A click of the voice screen handled to the end, as \<open>voice_step\<close> has it, is the run of the
  page in which the answers to that click arrive before anything else happens.
\<close>

lemma click_handled_to_completion:
  assumes "voice_inv st"
  shows "foldl page_step \<lparr>currentMode = VoiceMode, mounts = n, screen = st, awaiting = []\<rparr>
           (click_events env st) =
         \<lparr>currentMode = VoiceMode, mounts = n, screen = voice_step st (Click env), awaiting = []\<rparr>"
proof (cases "isListening st")
  case False
  from assms have np: "\<not> isProcessing st"
    by (simp add: voice_inv_def)
  from click_idle [OF assms False] have "voice_step st (Click env) = startListening (mic env) st" .
  with False np show ?thesis
    by (simp add: click_events_def start_click settle_def run_on_def startListening_pieces)
next
  case True
  from assms have np: "\<not> isProcessing st"
    by (simp add: voice_inv_def)
  from click_listening [OF assms True, of env] obtain r where
    r: "mediaRecorderRef st = Some r" "rstate r = Recording"
    and step: "voice_step st (Click env) =
               onstop (r\<lparr>rstate := StopQueued\<rparr>) (transcribe_reply env) (chat_reply env)
                 ((stopListening st)\<lparr>mediaRecorderRef := Some (r\<lparr>rstate := Inactive\<rparr>),
                    audioChunksRef := audioChunksRef st @ recorded env\<rparr>)"
    by blast
  let ?st3 = "(stopListening st)\<lparr>mediaRecorderRef := Some (r\<lparr>rstate := Inactive\<rparr>),
                    audioChunksRef := audioChunksRef st @ recorded env\<rparr>"
  have click: "button_click (recorded env)
                 \<lparr>currentMode = VoiceMode, mounts = n, screen = st, awaiting = []\<rparr> =
               \<lparr>currentMode = VoiceMode, mounts = n, screen = onstop_until_await ?st3,
                  awaiting = [AwaitTranscription n (captured_sessionId r)]\<rparr>"
    using True np r
    by (simp add: button_click_def Let_def state_stopListening foldl_ondataavailable)
  show ?thesis
    unfolding step onstop_pieces
    using True
    by (simp add: click_events_def click settle_def run_on_def Let_def)
qed



text \<open>
  On one mounted voice screen, when each click is handled to the end before the next event
  arrives, nothing is in flight at any click, and nothing is being spoken or pending while
  the recorder records.
\<close>

lemma listening_screen_is_silent:
  "is_recording (voice_run evs) \<Longrightarrow> speechSynthesis (voice_run evs) = []"
  using voice_inv_run [of evs] by (simp add: inv_is_recording voice_inv_def)




end
